theory Spec2Isabelle
  imports Main "HOL-Library.AList"
begin

section \<open>Strings as the Python code uses them\<close>

text \<open>
  Attribute values and URIs are Python strings; they are modelled as \<^typ>\<open>string\<close>
  (one \<^typ>\<open>char\<close> per character, so the model covers the 8-bit range).  The helpers
  below are the string methods the two modules call: \<^verbatim>\<open>lower\<close>, \<^verbatim>\<open>strip\<close>,
  \<^verbatim>\<open>split\<close>, \<^verbatim>\<open>split(':',1)\<close>, \<^verbatim>\<open>find(...) == 0\<close> and the comparison of
  version strings.
\<close>

definition upper_chars :: string where
  "upper_chars = ''ABCDEFGHIJKLMNOPQRSTUVWXYZ''"

definition lower_chars :: string where
  "lower_chars = ''abcdefghijklmnopqrstuvwxyz''"

definition digit_chars :: string where
  "digit_chars = ''0123456789''"

definition lower_char :: "char \<Rightarrow> char" where
  "lower_char c = (case map_of (zip upper_chars lower_chars) c of Some d \<Rightarrow> d | None \<Rightarrow> c)"

definition lower :: "string \<Rightarrow> string" where
  "lower s = map lower_char s"

definition is_space :: "char \<Rightarrow> bool" where
  "is_space c = (c \<in> set [CHR '' '', CHR 0x09, CHR 0x0A, CHR 0x0B, CHR 0x0C, CHR 0x0D])"

definition strip :: "string \<Rightarrow> string" where
  "strip s = rev (dropWhile is_space (rev (dropWhile is_space s)))"

text \<open>\<^verbatim>\<open>s.split()\<close>: the maximal runs of non-whitespace characters, in order.\<close>

fun split_from :: "string \<Rightarrow> string \<Rightarrow> string list" where
  "split_from cur [] = (if cur = [] then [] else [cur])"
| "split_from cur (c # cs) =
     (if is_space c then (if cur = [] then split_from [] cs else cur # split_from [] cs)
      else split_from (cur @ [c]) cs)"

definition split :: "string \<Rightarrow> string list" where
  "split s = split_from [] s"

text \<open>\<^verbatim>\<open>val.split(':',1)\<close>: one element when there is no colon, else the parts
  before and after the first colon.\<close>

definition split_colon :: "string \<Rightarrow> string list" where
  "split_colon val =
     (if CHR '':'' \<in> set val
      then [takeWhile (\<lambda>c. c \<noteq> CHR '':'') val, tl (dropWhile (\<lambda>c. c \<noteq> CHR '':'') val)]
      else [val])"

fun starts_with :: "string \<Rightarrow> string \<Rightarrow> bool" where
  "starts_with [] s = True"
| "starts_with (p # ps) [] = False"
| "starts_with (p # ps) (c # cs) = (p = c \<and> starts_with ps cs)"

text \<open>Python compares strings lexicographically by character code; the code compares
  \<^verbatim>\<open>rdfa_version\<close> with \<^verbatim>\<open>"1.1"\<close> that way.\<close>

fun str_less :: "string \<Rightarrow> string \<Rightarrow> bool" where
  "str_less [] [] = False"
| "str_less [] (y # ys) = True"
| "str_less (x # xs) [] = False"
| "str_less (x # xs) (y # ys) =
     (if (of_char x :: nat) < of_char y then True
      else if x = y then str_less xs ys else False)"

definition version_ge_1_1 :: "string \<Rightarrow> bool" where
  "version_ge_1_1 v = (\<not> str_less v ''1.1'')"

text \<open>
  \<^verbatim>\<open>ncname = re.compile("^[A-Za-z][A-Za-z0-9._-]*$")\<close>.  In Python \<^verbatim>\<open>$\<close> matches at
  the end of the string and also just before a newline that ends the string, so a value
  with one trailing newline matches as well.
\<close>

definition is_alpha :: "char \<Rightarrow> bool" where
  "is_alpha c = (c \<in> set (upper_chars @ lower_chars))"

definition is_alnum :: "char \<Rightarrow> bool" where
  "is_alnum c = (c \<in> set (upper_chars @ lower_chars @ digit_chars))"

definition is_ncname_char :: "char \<Rightarrow> bool" where
  "is_ncname_char c = (is_alnum c \<or> c \<in> set ''._-'')"

definition ncname_match :: "string \<Rightarrow> bool" where
  "ncname_match s =
     (case s of [] \<Rightarrow> False
      | c # cs \<Rightarrow> is_alpha c \<and>
          (list_all is_ncname_char cs \<or>
           (cs \<noteq> [] \<and> last cs = CHR 0x0A \<and> list_all is_ncname_char (butlast cs))))"

section \<open>RDF terms, warnings and the process-wide state\<close>

datatype rdfterm = URIRef string | BNode nat | Literal string

fun term_str :: "rdfterm \<Rightarrow> string" where
  "term_str (URIRef u) = u"
| "term_str (Literal l) = l"
| "term_str (BNode b) = ''_:b'' @ replicate b (CHR ''1'')"

datatype warning_kind =
  UnresolvablePrefix | UnresolvableTerm | IncorrectProfileDefinition | IncorrectPrefixDefinition

text \<open>\<^verbatim>\<open>options.add_warning(txt, warning_type=None, context=None)\<close>\<close>

type_synonym warning = "string \<times> warning_kind option \<times> string option"

text \<open>
  Dictionaries are association lists with unique keys, written with \<^const>\<open>AList.update\<close>
  and read with \<^const>\<open>map_of\<close>.  The code shares dictionaries by reference (the profile
  cache, the inherited term and namespace tables), so dictionaries live in a store:
  a reference is an index into \<open>heap\<close>, and a new dictionary is appended.
\<close>

type_synonym dict = "(string \<times> string) list"
type_synonym ref = nat

record session =
  heap :: "dict list"
  profile_cache :: "(string \<times> ref \<times> ref) list"
  profile_stack :: "string list"
  bnodes :: "(string \<times> nat) list"
  bnode_counter :: nat
  warnings :: "warning list"
  fetch_log :: "string list"
  graph_bindings :: "(string \<times> string) list"

text \<open>
  \<open>profile_cache\<close> and \<open>profile_stack\<close> are the class attributes of \<^verbatim>\<open>ProfileRead\<close>,
  \<open>bnodes\<close> is the module's \<^verbatim>\<open>_bnodes\<close>; \<^verbatim>\<open>BNode()\<close> draws a fresh identifier from
  \<open>bnode_counter\<close>.  The module creates \<^verbatim>\<open>_empty_bnode = BNode()\<close> when it is loaded, which
  takes identifier 0.  \<open>warnings\<close> is the sink behind \<^verbatim>\<open>options.add_warning\<close>,
  \<open>fetch_log\<close> records every call of \<^verbatim>\<open>CachedURIOpener\<close>, \<open>graph_bindings\<close> every
  \<^verbatim>\<open>graph.bind\<close>.
\<close>

definition empty_bnode :: rdfterm where
  "empty_bnode = BNode 0"

definition init_session :: session where
  "init_session = \<lparr> heap = [], profile_cache = [], profile_stack = [], bnodes = [],
     bnode_counter = 1, warnings = [], fetch_log = [], graph_bindings = [] \<rparr>"

definition add_warning :: "string \<Rightarrow> warning_kind option \<Rightarrow> string option \<Rightarrow> session \<Rightarrow> session" where
  "add_warning txt kind cx s = s\<lparr> warnings := warnings s @ [(txt, kind, cx)] \<rparr>"

definition new_dict :: "dict \<Rightarrow> session \<Rightarrow> ref \<times> session" where
  "new_dict d s = (length (heap s), s\<lparr> heap := heap s @ [d] \<rparr>)"

definition dict_at :: "session \<Rightarrow> ref \<Rightarrow> dict" where
  "dict_at s r = (if r < length (heap s) then heap s ! r else [])"

definition dict_set :: "ref \<Rightarrow> string \<Rightarrow> string \<Rightarrow> session \<Rightarrow> session" where
  "dict_set r k v s = s\<lparr> heap := (heap s)[r := AList.update k v (dict_at s r)] \<rparr>"

definition new_BNode :: "session \<Rightarrow> nat \<times> session" where
  "new_BNode s = (bnode_counter s, s\<lparr> bnode_counter := Suc (bnode_counter s) \<rparr>)"

section \<open>TermOrCurie: CURIE and term lookup\<close>

text \<open>
  The fields of a \<^verbatim>\<open>TermOrCurie\<close> instance.  Of its back reference \<^verbatim>\<open>self.state\<close> the
  lookup methods read only \<^verbatim>\<open>rdfa_version\<close>.  \<open>terms\<close> and \<open>ns\<close> are references to
  dictionaries in the store.
\<close>

record TermOrCurie =
  state_rdfa_version :: string
  default_curie_uri :: string
  default_term_uri :: "string option"
  terms :: ref
  ns :: ref

text \<open>\<^verbatim>\<open>CURIE_to_URI\<close> once the value is split into \<open>prefix\<close> and \<open>reference\<close>.\<close>

definition CURIE_parts :: "TermOrCurie \<Rightarrow> string \<Rightarrow> string \<Rightarrow> session \<Rightarrow> rdfterm option \<times> session" where
  "CURIE_parts self prefix reference s =
     (if length reference > 0 \<and> hd reference = CHR '':'' then (None, s)
      else if length prefix = 0 then (Some (URIRef (default_curie_uri self @ reference)), s)
      else if prefix = ''_'' then
        (if length reference = 0 then (Some empty_bnode, s)
         else case map_of (bnodes s) reference of
           Some b \<Rightarrow> (Some (BNode b), s)
         | None \<Rightarrow>
             (case new_BNode s of (b, s') \<Rightarrow>
                (Some (BNode b), s'\<lparr> bnodes := AList.update reference b (bnodes s') \<rparr>)))
      else if ncname_match prefix then
        (case map_of (dict_at s (ns self)) prefix of
           Some n \<Rightarrow> (if length reference = 0 then (Some (URIRef n), s)
                      else (Some (URIRef (n @ reference)), s))
         | None \<Rightarrow> (None, s))
      else (None, s))"

definition CURIE_to_URI :: "TermOrCurie \<Rightarrow> string \<Rightarrow> session \<Rightarrow> rdfterm option \<times> session" where
  "CURIE_to_URI self val s =
     (if val = [] \<or> val = '':'' then (None, s)
      else
        (let curie_split = split_colon val in
         if length curie_split = 1 then (None, s)
         else CURIE_parts self
                (if version_ge_1_1 (state_rdfa_version self) then lower (curie_split ! 0) else curie_split ! 0)
                (curie_split ! 1) s))"

definition term_to_URI :: "TermOrCurie \<Rightarrow> string \<Rightarrow> session \<Rightarrow> rdfterm option" where
  "term_to_URI self t s =
     (if t = [] then None
      else if ncname_match t then
        (case map_of (dict_at s (terms self)) (lower t) of
           Some uri \<Rightarrow> Some (URIRef uri)
         | None \<Rightarrow> (case default_term_uri self of
                      Some d \<Rightarrow> Some (URIRef (d @ t))
                    | None \<Rightarrow> None))
      else None)"

section \<open>The world outside the two modules\<close>

text \<open>
  The modules call code that is not part of them: \<^verbatim>\<open>urlparse\<close>, \<^verbatim>\<open>quote_URI\<close>,
  \<^verbatim>\<open>CachedURIOpener\<close>, the RDFLib parsers, the RDFa distiller that reads a profile written
  in RDFa, and constants of the package.  They are parameters of the model, collected in
  one record.  \<open>urlsplit_scheme u\<close> is \<^verbatim>\<open>urlparse.urlsplit(u)[0]\<close>.  \<open>quote_URI\<close> returns the
  quoted URI together with the warnings it adds to the options.  A parser returns
  \<open>Inl\<close> with the exception's text when it raises.
\<close>

datatype HostLanguage = rdfa_core | xhtml_rdfa | html_rdfa

datatype open_error = HTTPError string nat | RDFaError string | OtherException string

record content =
  content_type :: string
  data :: string

type_synonym graph = "(rdfterm \<times> rdfterm \<times> rdfterm) list"

record env =
  urlsplit_scheme :: "string \<Rightarrow> string"
  urljoin :: "string \<Rightarrow> string \<Rightarrow> string"
  quote_URI :: "string \<Rightarrow> string \<times> warning list"
  CachedURIOpener :: "string \<Rightarrow> open_error + content"
  parse_n3 :: "string \<Rightarrow> string + graph"
  parse_rdfxml :: "string \<Rightarrow> string + graph"
  parse_nt :: "string \<Rightarrow> string + graph"
  graph_from_source :: "string \<Rightarrow> string + graph option"
  MediaTypes_turtle :: string
  MediaTypes_rdfxml :: string
  MediaTypes_nt :: string
  MediaTypes_xhtml :: string
  MediaTypes_html :: string
  MediaTypes_xml :: string
  ns_rdfa :: string
  rdfa_current_version :: string
  default_host_language :: HostLanguage

text \<open>\<^verbatim>\<open>FailedProfile(msg, context, http_code=None)\<close>\<close>

datatype error = FailedProfile string string "nat option"

section \<open>DOM nodes\<close>

record attr =
  a_name :: string
  a_localName :: string
  a_value :: string

datatype element = Element string "attr list" "element list"


fun attributes :: "element \<Rightarrow> attr list" where
  "attributes (Element t as cs) = as"

fun childNodes :: "element \<Rightarrow> element list" where
  "childNodes (Element t as cs) = cs"

definition hasAttribute :: "element \<Rightarrow> string \<Rightarrow> bool" where
  "hasAttribute n a = (find (\<lambda>x. a_name x = a) (attributes n) \<noteq> None)"

text \<open>minidom's \<^verbatim>\<open>getAttribute\<close> returns the empty string for a missing attribute.\<close>

definition getAttribute :: "element \<Rightarrow> string \<Rightarrow> string" where
  "getAttribute n a = (case find (\<lambda>x. a_name x = a) (attributes n) of Some x \<Rightarrow> a_value x | None \<Rightarrow> [])"



section \<open>State.py: the execution context and the resolution strategies\<close>


definition usual_schemes :: "string list" where
  "usual_schemes = [''doi'', ''file'', ''ftp'', ''gopher'', ''hdl'', ''http'', ''https'', ''imap'',
     ''isbn'', ''ldap'', ''lsid'', ''mailto'', ''mms'', ''mstp'', ''news'', ''nntp'', ''prospero'',
     ''rsync'', ''rtmp'', ''rtsp'', ''rtspu'', ''sftp'', ''shttp'', ''sip'', ''sips'', ''snews'',
     ''stp'', ''svn'', ''svn+ssh'', ''telnet'', ''tel'', ''urn'', ''wais'']"

text \<open>
  The fields of \<^verbatim>\<open>ExecutionContext\<close>.  \<open>ctx_core\<close> holds the fields that exist when the
  constructor builds the vocabulary object (the calls \<^verbatim>\<open>state.getURI("profile")\<close> and
  \<^verbatim>\<open>state.getURI("vocab")\<close> run on such a half-built state); the full record adds the
  fields assigned afterwards.  \<open>host_language\<close> is \<^verbatim>\<open>options.host_language\<close>,
  \<open>parsedBase_scheme\<close> is \<^verbatim>\<open>parsedBase[0]\<close>.  \<^verbatim>\<open>State.py\<close> names the vocabulary
  object \<^verbatim>\<open>self.curie\<close>, \<^verbatim>\<open>TermOrCurie.py\<close> reads it as \<^verbatim>\<open>term_or_curie\<close>: one field.
\<close>

record ctx_core =
  node :: element
  rdfa_version :: string
  base :: string
  host_language :: HostLanguage
  parsedBase_scheme :: string

record ExecutionContext = ctx_core +
  curie :: TermOrCurie
  lang :: "string option"
  defaultNS :: "string option"

definition check_create_URIRef :: "env \<Rightarrow> string \<Rightarrow> session \<Rightarrow> rdfterm \<times> session" where
  "check_create_URIRef e uri s =
     (let val = strip uri in
      (URIRef val,
       if urlsplit_scheme e val \<notin> set usual_schemes
       then add_warning (''Unusual URI scheme used <'' @ strip val @ ''>; may that be a mistake?'') None None s
       else s))"

definition p_URI :: "env \<Rightarrow> 'a ctx_core_scheme \<Rightarrow> string \<Rightarrow> session \<Rightarrow> rdfterm \<times> session" where
  "p_URI e self val s =
     (if val = [] then (URIRef (base self), s)
      else if parsedBase_scheme self = [] then
        (let key = urlsplit_scheme e val in
         if key = [] then (URIRef (base self @ strip val), s)
         else check_create_URIRef e val s)
      else
        (let joined = urljoin e (base self) val in
         if joined = [] then check_create_URIRef e joined s
         else if last val \<noteq> last joined then check_create_URIRef e (joined @ [last val]) s
         else check_create_URIRef e joined s))"

text \<open>Python truth value of a resolution result: \<^verbatim>\<open>None\<close> and the empty string are false.\<close>

fun truthy :: "rdfterm option \<Rightarrow> bool" where
  "truthy None = False"
| "truthy (Some (URIRef u)) = (u \<noteq> [])"
| "truthy (Some (Literal l)) = (l \<noteq> [])"
| "truthy (Some (BNode b)) = True"

fun isBNode :: "rdfterm \<Rightarrow> bool" where
  "isBNode (BNode b) = True"
| "isBNode r = False"

definition p_CURIEorURI :: "env \<Rightarrow> ExecutionContext \<Rightarrow> string \<Rightarrow> session \<Rightarrow> rdfterm option \<times> session" where
  "p_CURIEorURI e self val0 s =
     (if val0 = [] then (Some (URIRef (base self)), s)
      else if hd val0 = CHR ''['' \<and> last val0 \<noteq> CHR '']''
      then (None, add_warning (''Illegal CURIE: '' @ val0) (Some UnresolvablePrefix) None s)
      else
        (let safe_curie = (hd val0 = CHR ''['');
             val = (if safe_curie then butlast (tl val0) else val0)
         in if version_ge_1_1 (rdfa_version self) then
              (case CURIE_to_URI (curie self) val s of
                 (None, s1) \<Rightarrow>
                   (if safe_curie
                    then (None, add_warning
                           (''Safe CURIE was used but value does not correspond to a defined CURIE: ['' @ val @ '']'')
                           (Some UnresolvablePrefix) None s1)
                    else (case p_URI e self val s1 of (u, s2) \<Rightarrow> (Some u, s2)))
               | (Some retval, s1) \<Rightarrow>
                   (if \<not> isBNode retval \<and> urlsplit_scheme e (term_str retval) = []
                    then (Some (URIRef (base self @ term_str retval)), s1)
                    else (Some retval, s1)))
            else if safe_curie then CURIE_to_URI (curie self) val s
            else (case p_URI e self val s of (u, s2) \<Rightarrow> (Some u, s2))))"

definition p_TERMorCURIEorAbsURI :: "env \<Rightarrow> ExecutionContext \<Rightarrow> string \<Rightarrow> session \<Rightarrow> rdfterm option \<times> session" where
  "p_TERMorCURIEorAbsURI e self val s =
     (if val = [] then (None, s)
      else if ncname_match val then
        (let retval = term_to_URI (curie self) val s in
         if \<not> truthy retval
         then (None, add_warning (''Unresolvable term: '' @ val) (Some UnresolvableTerm) None s)
         else (retval, s))
      else
        (case CURIE_to_URI (curie self) val s of (retval, s1) \<Rightarrow>
           if truthy retval then (retval, s1)
           else if version_ge_1_1 (rdfa_version self) then
             (let scheme = urlsplit_scheme e val in
              if scheme = [] then
                (None, add_warning (''Relative URI is not allowed in this position: ['' @ val @ '']'')
                         (Some UnresolvablePrefix) None s1)
              else
                (Some (URIRef val),
                 if scheme \<notin> set usual_schemes
                 then add_warning (''Unusual URI scheme used <'' @ strip val @ ''>; may that be a mistake?'') None None s1
                 else s1))
           else
             (None, add_warning (''CURIE was used but value does not correspond to a defined CURIE: '' @ strip val)
                      (Some UnresolvablePrefix) None s1)))"

text \<open>\<^verbatim>\<open>ExecutionContext._list\<close> and \<^verbatim>\<open>ExecutionContext._resource_type\<close>\<close>

definition list_attrs :: "string list" where
  "list_attrs = [''profile'', ''rel'', ''rev'', ''property'', ''typeof'']"

datatype strategy = S_URI | S_CURIEorURI | S_TERMorCURIEorAbsURI

definition resource_type :: "(string \<times> strategy) list" where
  "resource_type = [(''href'', S_URI), (''src'', S_URI), (''profile'', S_URI), (''vocab'', S_URI),
     (''about'', S_CURIEorURI), (''resource'', S_CURIEorURI),
     (''rel'', S_TERMorCURIEorAbsURI), (''rev'', S_TERMorCURIEorAbsURI),
     (''datatype'', S_TERMorCURIEorAbsURI), (''typeof'', S_TERMorCURIEorAbsURI),
     (''property'', S_TERMorCURIEorAbsURI)]"

fun run_strategy :: "env \<Rightarrow> strategy \<Rightarrow> ExecutionContext \<Rightarrow> string \<Rightarrow> session \<Rightarrow> rdfterm option \<times> session" where
  "run_strategy e S_URI self val s = (case p_URI e self val s of (u, s') \<Rightarrow> (Some u, s'))"
| "run_strategy e S_CURIEorURI self val s = p_CURIEorURI e self val s"
| "run_strategy e S_TERMorCURIEorAbsURI self val s = p_TERMorCURIEorAbsURI e self val s"

text \<open>What \<^verbatim>\<open>getURI\<close> returns: a single value (Python \<^verbatim>\<open>None\<close> is \<open>Single None\<close>) or a list.\<close>

datatype uri_result = Single "rdfterm option" | Many "rdfterm list"

text \<open>The list comprehension of \<^verbatim>\<open>getURI\<close>: resolve every token in order, keep the
  results that are not \<^verbatim>\<open>None\<close>.\<close>

fun resolve_all :: "(string \<Rightarrow> session \<Rightarrow> rdfterm option \<times> session) \<Rightarrow> string list \<Rightarrow> session
    \<Rightarrow> rdfterm list \<times> session" where
  "resolve_all f [] s = ([], s)"
| "resolve_all f (v # vs) s =
     (case f (strip v) s of (r, s1) \<Rightarrow>
        (case resolve_all f vs s1 of (rs, s2) \<Rightarrow>
           ((case r of None \<Rightarrow> rs | Some x \<Rightarrow> x # rs), s2)))"

definition getURI :: "env \<Rightarrow> ExecutionContext \<Rightarrow> string \<Rightarrow> session \<Rightarrow> uri_result \<times> session" where
  "getURI e self a s =
     (if \<not> hasAttribute (node self) a
      then (if a \<in> set list_attrs then (Many [], s) else (Single None, s))
      else
        (let val = getAttribute (node self) a;
             func = (case map_of resource_type a of Some f \<Rightarrow> f | None \<Rightarrow> S_URI)
         in if a \<in> set list_attrs
            then (case resolve_all (run_strategy e func self) (split val) s of (rs, s') \<Rightarrow> (Many rs, s'))
            else (case run_strategy e func self (strip val) s of (r, s') \<Rightarrow> (Single r, s'))))"

text \<open>
  \<^verbatim>\<open>getURI\<close> as it runs on the half-built state inside the constructors, for the attributes
  whose strategy is \<^verbatim>\<open>_URI\<close> (\<^verbatim>\<open>profile\<close> and \<^verbatim>\<open>vocab\<close> are the two the constructors ask
  for); it is \<open>getURI\<close> there.
\<close>

definition getURI_plain :: "env \<Rightarrow> 'a ctx_core_scheme \<Rightarrow> string \<Rightarrow> session \<Rightarrow> uri_result \<times> session" where
  "getURI_plain e self a s =
     (if \<not> hasAttribute (node self) a
      then (if a \<in> set list_attrs then (Many [], s) else (Single None, s))
      else
        (let val = getAttribute (node self) a;
             func = (\<lambda>v s. case p_URI e self v s of (u, s') \<Rightarrow> (Some u, s'))
         in if a \<in> set list_attrs
            then (case resolve_all func (split val) s of (rs, s') \<Rightarrow> (Many rs, s'))
            else (case func (strip val) s of (r, s') \<Rightarrow> (Single r, s'))))"

section \<open>TermOrCurie.py: reading profiles\<close>

text \<open>The apostrophe of the warning texts.\<close>

definition apos :: string where
  "apos = [CHR 0x27]"

definition XHTML_PREFIX :: string where
  "XHTML_PREFIX = ''xhv''"

definition XHTML_URI :: string where
  "XHTML_URI = ''http://www.w3.org/1999/xhtml/vocab#''"

definition GRDDL_PROFILE :: string where
  "GRDDL_PROFILE = ''http://www.w3.org/2003/g/data-view''"

text \<open>
  \<^verbatim>\<open>xml_application_media_type = re.compile("application/[a-zA-Z0-9]+\+xml")\<close>, used with
  \<^verbatim>\<open>match\<close>: anchored at the start only.
\<close>

definition xml_application_media_type_match :: "string \<Rightarrow> bool" where
  "xml_application_media_type_match ct =
     (starts_with ''application/'' ct \<and>
      (let r = drop (length ''application/'') ct
       in takeWhile is_alnum r \<noteq> [] \<and> starts_with ''+xml'' (dropWhile is_alnum r)))"

text \<open>
  An RDFLib graph is the list of its triples.  \<^verbatim>\<open>graph.objects(s, p)\<close> and
  \<^verbatim>\<open>graph.subjects(p, o)\<close> enumerate the matching triples; \<^verbatim>\<open>None\<close> as subject
  matches every subject.
\<close>

definition objects :: "graph \<Rightarrow> rdfterm option \<Rightarrow> rdfterm \<Rightarrow> rdfterm list" where
  "objects g sb p =
     map (\<lambda>(s, p', ob). ob) (filter (\<lambda>(s, p', ob). p' = p \<and> (sb = None \<or> sb = Some s)) (remdups g))"

definition subjects :: "graph \<Rightarrow> rdfterm \<Rightarrow> rdfterm \<Rightarrow> rdfterm list" where
  "subjects g p ob =
     map (\<lambda>(s, p', ob'). s) (filter (\<lambda>(s, p', ob'). p' = p \<and> ob' = ob) (remdups g))"

definition rdfa :: "env \<Rightarrow> string \<Rightarrow> rdfterm" where
  "rdfa e l = URIRef (ns_rdfa e @ l)"

text \<open>
  A \<^verbatim>\<open>ProfileRead\<close> instance.  \<open>pr_terms\<close> and \<open>pr_ns\<close> are references: the constructor
  stores these very dictionaries in the cache and takes dictionaries out of the cache, and
  it keeps writing into whichever dictionary it holds.
\<close>

record ProfileRead =
  pr_terms :: ref
  pr_ns :: ref
  pr_vocabulary :: "rdfterm option"

definition add_warnings :: "warning list \<Rightarrow> session \<Rightarrow> session" where
  "add_warnings ws s = s\<lparr> warnings := warnings s @ ws \<rparr>"

definition p_get_graph :: "env \<Rightarrow> string \<Rightarrow> session \<Rightarrow> (error + graph option) \<times> session" where
  "p_get_graph e name s =
     (let s1 = s\<lparr> fetch_log := fetch_log s @ [name] \<rparr> in
      case CachedURIOpener e name of
        Inl (HTTPError msg code) \<Rightarrow>
          (Inl (FailedProfile (''Profile document <'' @ name @ ''> could not be dereferenced ('' @ msg @ '')'')
                  name (Some code)), s1)
      | Inl (RDFaError msg) \<Rightarrow>
          (Inl (FailedProfile (''Profile document <'' @ name @ ''> could not be dereferenced ('' @ msg @ '')'')
                  name None), s1)
      | Inl (OtherException v) \<Rightarrow>
          (Inl (FailedProfile (''Profile document <'' @ name @ ''> could not be dereferenced ('' @ v @ '')'')
                  name None), s1)
      | Inr c \<Rightarrow>
          if content_type c = MediaTypes_turtle e then
            (case parse_n3 e (data c) of
               Inr g \<Rightarrow> (Inr (Some g), s1)
             | Inl v \<Rightarrow> (Inl (FailedProfile
                  (''Could not parse Turtle content content at <'' @ name @ ''> ('' @ v @ '')'') name None), s1))
          else if content_type c = MediaTypes_rdfxml e then
            (case parse_rdfxml e (data c) of
               Inr g \<Rightarrow> (Inr (Some g), s1)
             | Inl v \<Rightarrow> (Inl (FailedProfile
                  (''Could not parse RDF/XML content at <'' @ name @ ''> ('' @ v @ '')'') name None), s1))
          else if content_type c = MediaTypes_nt e then
            (case parse_nt e (data c) of
               Inr g \<Rightarrow> (Inr (Some g), s1)
             | Inl v \<Rightarrow> (Inl (FailedProfile
                  (''Could not parse N-Triple content at <'' @ name @ ''> ('' @ v @ '')'') name None), s1))
          else if content_type c \<in> set [MediaTypes_xhtml e, MediaTypes_html e, MediaTypes_xml e]
                  \<or> xml_application_media_type_match (content_type c) then
            (case graph_from_source e (data c) of
               Inr g \<Rightarrow> (Inr g, s1)
             | Inl v \<Rightarrow> (Inl (FailedProfile
                  (''Could not parse RDFa content at <'' @ name @ ''> ('' @ v @ '')'') name None), s1))
          else
            (Inl (FailedProfile (''Unrecognized media type for the vocabulary file <'' @ name @ ''>: '' @ apos
                    @ content_type c @ apos) name None), s1))"

text \<open>
  One round of the loop of \<^verbatim>\<open>_find_terms\<close>, for one \<^verbatim>\<open>term\<close> of the frozenset.
  \<open>kind\<close> is the argument \<^verbatim>\<open>term_or_prefix\<close>.
\<close>

definition find_terms_step :: "env \<Rightarrow> graph \<Rightarrow> string \<Rightarrow> string \<Rightarrow> ProfileRead \<Rightarrow> rdfterm \<Rightarrow> session \<Rightarrow> session" where
  "find_terms_step e g prof kind self t s =
     (let opposite = (if kind = ''term'' then ''prefix'' else ''term'');
          e_tuple = kind @ '' '' @ apos @ term_str t @ apos;
          warn = (\<lambda>txt. add_warning txt (Some IncorrectProfileDefinition) (Some prof) s)
      in case t of
        Literal l \<Rightarrow>
          if \<not> ncname_match l then warn (''Non NCNAME '' @ e_tuple @ ''; ignored'')
          else
            (let subjs = subjects g (rdfa e kind) t in
             if length subjs \<noteq> 1 then warn (''The '' @ e_tuple @ '' is defined twice; ignored'')
             else
               (let subj = hd subjs; others = objects g (Some subj) (rdfa e opposite) in
                if length (objects g (Some subj) (rdfa e kind)) \<noteq> 1
                then warn (''Same subject is used for several '' @ kind @ '' definion (including '' @ apos @ l
                             @ apos @ ''); ignored'')
                else if length others \<noteq> 0
                then warn (''Same subject is used for both '' @ kind @ '' and '' @ opposite @ '' ('' @ apos @ l @ apos
                             @ '' and '' @ apos @ term_str (last others) @ apos @ ''); ignored'')
                else
                  (let uris = objects g (Some subj) (rdfa e ''uri'') in
                   if length uris = 0 then warn (''No URI defined for '' @ e_tuple @ ''; ignored'')
                   else if length uris > 1
                   then warn (''More than one URIs defined for '' @ e_tuple @ ''; ignored'')
                   else if kind = ''term'' then dict_set (pr_terms self) (lower l) (term_str (hd uris)) s
                   else (case quote_URI e (term_str (hd uris)) of (u, ws) \<Rightarrow>
                           dict_set (pr_ns self) (lower l) u (add_warnings ws s)))))
      | _ \<Rightarrow> warn (''Non Literal '' @ e_tuple @ ''; ignored''))"

text \<open>\<^verbatim>\<open>_find_terms\<close>: the loop runs over the frozenset of the objects, that is, over each
  distinct object once.\<close>

definition p_find_terms :: "env \<Rightarrow> graph \<Rightarrow> string \<Rightarrow> string \<Rightarrow> ProfileRead \<Rightarrow> session \<Rightarrow> session" where
  "p_find_terms e g prof kind self s =
     fold (find_terms_step e g prof kind self) (remdups (objects g None (rdfa e kind))) s"

text \<open>The vocabulary declaration read from a freshly fetched profile graph.\<close>

definition read_vocabulary :: "env \<Rightarrow> graph \<Rightarrow> string \<Rightarrow> ProfileRead \<Rightarrow> session \<Rightarrow> ProfileRead \<times> session" where
  "read_vocabulary e g prof self s =
     (let voc_defs = objects g None (rdfa e ''vocabulary'') in
      if length voc_defs = 1 then (self\<lparr> pr_vocabulary := Some (hd voc_defs) \<rparr>, s)
      else if length voc_defs > 1
      then (self, add_warning ''Two or more default vocabulary URIs defined in the profile; ignored''
                    (Some IncorrectProfileDefinition) (Some prof) s)
      else (self, s))"

text \<open>
  The body of the \<^verbatim>\<open>for profuriref in profs\<close> loop of \<^verbatim>\<open>ProfileRead.__init__\<close> for one
  profile.  The result is \<open>Inl\<close> when \<^verbatim>\<open>_get_graph\<close> raises; the session is returned in
  both cases, since what the constructor did before the exception stays done.
\<close>

definition profile_step :: "env \<Rightarrow> string \<Rightarrow> ProfileRead \<Rightarrow> session \<Rightarrow> (error + ProfileRead) \<times> session" where
  "profile_step e prof self s =
     (if prof = GRDDL_PROFILE then (Inr self, s)
      else if prof \<in> set (profile_stack s) then (Inr self, s)
      else
        (let s1 = s\<lparr> profile_stack := profile_stack s @ [prof] \<rparr> in
         case map_of (profile_cache s1) prof of
           Some (t, n) \<Rightarrow>
             (Inr (self\<lparr> pr_terms := t, pr_ns := n \<rparr>), s1\<lparr> profile_stack := butlast (profile_stack s1) \<rparr>)
         | None \<Rightarrow>
             (case p_get_graph e prof s1 of
                (Inl err, s2) \<Rightarrow> (Inl err, s2)
              | (Inr None, s2) \<Rightarrow> (Inr self, s2)
              | (Inr (Some g), s2) \<Rightarrow>
                  (case read_vocabulary e g prof self s2 of (self3, s3) \<Rightarrow>
                     (let s4 = p_find_terms e g prof ''term'' self3 s3;
                          s5 = p_find_terms e g prof ''prefix'' self3 s4;
                          s6 = s5\<lparr> profile_cache :=
                                  AList.update prof (pr_terms self3, pr_ns self3) (profile_cache s5) \<rparr>
                      in (Inr self3, s6\<lparr> profile_stack := butlast (profile_stack s6) \<rparr>))))))"

fun profile_loop :: "env \<Rightarrow> string list \<Rightarrow> ProfileRead \<Rightarrow> session \<Rightarrow> (error + ProfileRead) \<times> session" where
  "profile_loop e [] self s = (Inr self, s)"
| "profile_loop e (prof # profs) self s =
     (case profile_step e prof self s of
        (Inl err, s') \<Rightarrow> (Inl err, s')
      | (Inr self', s') \<Rightarrow> profile_loop e profs self' s')"

fun many_of :: "uri_result \<Rightarrow> rdfterm list" where
  "many_of (Many rs) = rs"
| "many_of (Single r) = []"

fun single_of :: "uri_result \<Rightarrow> rdfterm option" where
  "single_of (Single r) = r"
| "single_of (Many rs) = None"

text \<open>\<^verbatim>\<open>ProfileRead.__init__\<close>\<close>

definition ProfileRead_init :: "env \<Rightarrow> 'a ctx_core_scheme \<Rightarrow> session \<Rightarrow> (error + ProfileRead) \<times> session" where
  "ProfileRead_init e state s =
     (case new_dict [] s of (t, s1) \<Rightarrow>
      case new_dict [] s1 of (n, s2) \<Rightarrow>
        (let self = \<lparr> pr_terms = t, pr_ns = n, pr_vocabulary = None \<rparr> in
         if str_less (rdfa_version state) ''1.1'' then (Inr self, s2)
         else
           (case getURI_plain e state ''profile'' s2 of (profs, s3) \<Rightarrow>
              profile_loop e (map term_str (rev (many_of profs))) self s3)))"

section \<open>TermOrCurie.py: building the vocabulary object of a node\<close>

text \<open>Copying the entries of one dictionary over another: \<^verbatim>\<open>for key in d : target[key] = d[key]\<close>.\<close>

definition dict_overlay :: "dict \<Rightarrow> dict \<Rightarrow> dict" where
  "dict_overlay target src = fold (\<lambda>(k, v). AList.update k v) src target"

definition graph_bind :: "string \<Rightarrow> string \<Rightarrow> session \<Rightarrow> session" where
  "graph_bind p u s = s\<lparr> graph_bindings := graph_bindings s @ [(p, u)] \<rparr>"

text \<open>
  The local namespace dictionary \<^verbatim>\<open>dict\<close> of the constructor is a value while the
  constructor fills it: no other object holds a reference to it before the constructor
  ends.  One round of the loop over the attributes (the \<^verbatim>\<open>xmlns:\<close> declarations):
\<close>

definition xmlns_step :: "env \<Rightarrow> string \<Rightarrow> attr \<Rightarrow> dict \<times> session \<Rightarrow> dict \<times> session" where
  "xmlns_step e version a ds =
     (case ds of (d, s) \<Rightarrow>
        if starts_with ''xmlns:'' (a_name a) then
          (let prefix = a_localName a in
           if prefix \<noteq> [] then
             (if prefix = ''_'' then
                (d, add_warning (''The '' @ apos @ ''_'' @ apos @ '' local CURIE prefix is reserved for blank nodes, and cannot be changed'')
                      (Some IncorrectPrefixDefinition) None s)
              else if CHR '':'' \<in> set prefix then
                (d, add_warning (''The character '' @ apos @ '':'' @ apos @ '' is not valid in a CURIE Prefix'')
                      (Some IncorrectPrefixDefinition) None s)
              else
                (case quote_URI e (a_value a) of (uri, ws) \<Rightarrow>
                   (let pr = (if version_ge_1_1 version then lower prefix else prefix)
                    in (AList.update pr uri d, graph_bind pr uri (add_warnings ws s)))))
           else (d, s))
        else (d, s))"

text \<open>
  One round of the loop over the token pairs of \<^verbatim>\<open>@prefix\<close>, for the pair \<open>prefix0\<close>,
  \<open>val\<close>; \<open>pr\<close> is the attribute value (for the
  warning texts), the state is the local dictionary, \<^verbatim>\<open>self.default_curie_uri\<close> and the
  session.  The tokens come from \<^verbatim>\<open>split()\<close> and are never empty, so \<^verbatim>\<open>prefix[-1]\<close>
  exists; the test for the empty token is there because \<^const>\<open>last\<close> is total.
\<close>

definition prefix_pair_step ::
    "env \<Rightarrow> string \<Rightarrow> string \<Rightarrow> string \<Rightarrow> dict \<times> string \<times> session \<Rightarrow> dict \<times> string \<times> session" where
  "prefix_pair_step e pr prefix0 val st =
     (case st of (d, dcu, s) \<Rightarrow>
        if prefix0 = [] \<or> last prefix0 \<noteq> CHR '':'' then
          (d, dcu, add_warning (''Invalid prefix declaration '' @ apos @ prefix0 @ apos
                                  @ '' (in '' @ apos @ pr @ apos @ '')'') (Some IncorrectPrefixDefinition) None s)
        else
          (let prefix = butlast prefix0 in
           case quote_URI e val of (uri, ws) \<Rightarrow>
             (let s1 = add_warnings ws s in
              if prefix = [] then (d, uri, s1)
              else if prefix = ''_'' then
                (d, dcu, add_warning (''The '' @ apos @ ''_'' @ apos @ '' local CURIE prefix is reserved for blank nodes, and cannot be changed (in ''
                                        @ apos @ pr @ apos @ '')'') (Some IncorrectPrefixDefinition) None s1)
              else if ncname_match prefix then
                (let real_prefix = lower prefix in
                 if map_of d real_prefix = None
                 then (AList.update real_prefix uri d, dcu, graph_bind real_prefix uri s1)
                 else (d, dcu, s1))
              else
                (d, dcu, add_warning (''Invalid prefix declaration (must be an NCNAME) '' @ apos @ prefix @ apos
                                        @ '' (in '' @ apos @ pr @ apos @ '')'') (Some IncorrectPrefixDefinition) None s1))))"

text \<open>The loop: a last token without a partner gives a warning and ends the loop.\<close>

fun prefix_pairs :: "env \<Rightarrow> string \<Rightarrow> string list \<Rightarrow> dict \<times> string \<times> session \<Rightarrow> dict \<times> string \<times> session" where
  "prefix_pairs e pr [] st = st"
| "prefix_pairs e pr [prefix] (d, dcu, s) =
     (d, dcu, add_warning (''Missing URI in prefix declaration for '' @ apos @ prefix @ apos
                             @ '' (in '' @ apos @ pr @ apos @ '')'') (Some IncorrectPrefixDefinition) None s)"
| "prefix_pairs e pr (prefix0 # val # rest) st = prefix_pairs e pr rest (prefix_pair_step e pr prefix0 val st)"

text \<open>The local dictionary after the profile entries and the attributes of the node.\<close>

definition local_prefixes :: "env \<Rightarrow> 'a ctx_core_scheme \<Rightarrow> dict \<Rightarrow> string \<Rightarrow> session \<Rightarrow> dict \<times> string \<times> session" where
  "local_prefixes e state profile_ns dcu s =
     (case fold (xmlns_step e (rdfa_version state)) (attributes (node state)) (dict_overlay [] profile_ns, s)
      of (d, s1) \<Rightarrow>
        if version_ge_1_1 (rdfa_version state) \<and> hasAttribute (node state) ''prefix''
        then (let pr = getAttribute (node state) ''prefix''
              in prefix_pairs e pr (split (strip pr)) (d, dcu, s1))
        else (d, dcu, s1))"

text \<open>
  \<^verbatim>\<open>TermOrCurie.__init__(self, state, graph, inherited_state)\<close>, in the order of its
  sections: the default CURIE URI, the profiles, the default term URI, the terms, the
  namespaces.  Each section is a definition of its own.
\<close>

definition init_default_curie_uri :: "ExecutionContext option \<Rightarrow> session \<Rightarrow> string \<times> session" where
  "init_default_curie_uri inherited_state s =
     (case inherited_state of
        None \<Rightarrow> (XHTML_URI, graph_bind XHTML_PREFIX XHTML_URI s)
      | Some inh \<Rightarrow> (default_curie_uri (curie inh), s))"

text \<open>The code calls \<^verbatim>\<open>getURI("vocab")\<close> twice; each call can add a warning.\<close>

definition init_default_term_uri ::
    "env \<Rightarrow> 'a ctx_core_scheme \<Rightarrow> ExecutionContext option \<Rightarrow> ProfileRead \<Rightarrow> session
     \<Rightarrow> string option \<times> session" where
  "init_default_term_uri e state inherited_state recursive_vocab s =
     (if version_ge_1_1 (rdfa_version state) then
        (case getURI_plain e state ''vocab'' s of (unused, sa) \<Rightarrow>
         case getURI_plain e state ''vocab'' sa of (def_term_uri, sb) \<Rightarrow>
           (let d0 = (case inherited_state of None \<Rightarrow> None
                      | Some inh \<Rightarrow> default_term_uri (curie inh));
                d1 = (if truthy (pr_vocabulary recursive_vocab)
                      then map_option term_str (pr_vocabulary recursive_vocab) else d0)
            in (if truthy (single_of def_term_uri)
                then map_option term_str (single_of def_term_uri) else d1, sb)))
      else (None, s))"

definition init_terms :: "ExecutionContext option \<Rightarrow> ProfileRead \<Rightarrow> session \<Rightarrow> ref \<times> session" where
  "init_terms inherited_state recursive_vocab s =
     (case inherited_state of
        None \<Rightarrow> new_dict (dict_overlay [] (dict_at s (pr_terms recursive_vocab))) s
      | Some inh \<Rightarrow>
          if length (dict_at s (pr_terms recursive_vocab)) = 0
          then (terms (curie inh), s)
          else new_dict (dict_overlay (dict_overlay [] (dict_at s (terms (curie inh))))
                           (dict_at s (pr_terms recursive_vocab))) s)"

text \<open>The last section: \<open>d\<close> is the local dictionary \<^verbatim>\<open>dict\<close>.\<close>

definition init_ns :: "ExecutionContext option \<Rightarrow> dict \<Rightarrow> session \<Rightarrow> ref \<times> session" where
  "init_ns inherited_state d s =
     (case inherited_state of
        Some inh \<Rightarrow>
          if length d = 0 then (ns (curie inh), s)
          else new_dict (dict_overlay (dict_overlay [] (dict_at s (ns (curie inh)))) d) s
      | None \<Rightarrow> new_dict d s)"

definition TermOrCurie_init ::
    "env \<Rightarrow> 'a ctx_core_scheme \<Rightarrow> ExecutionContext option \<Rightarrow> session \<Rightarrow> (error + TermOrCurie) \<times> session" where
  "TermOrCurie_init e state inherited_state s =
     (case init_default_curie_uri inherited_state s of (dcu0, s1) \<Rightarrow>
      case ProfileRead_init e state s1 of
        (Inl err, s2) \<Rightarrow> (Inl err, s2)
      | (Inr recursive_vocab, s2) \<Rightarrow>
      case init_default_term_uri e state inherited_state recursive_vocab s2 of (dtu, s3) \<Rightarrow>
      case init_terms inherited_state recursive_vocab s3 of (terms_ref, s4) \<Rightarrow>
      case local_prefixes e state (dict_at s4 (pr_ns recursive_vocab)) dcu0 s4 of (d, dcu, s5) \<Rightarrow>
      case init_ns inherited_state d s5 of (ns_ref, s6) \<Rightarrow>
        (Inr \<lparr> state_rdfa_version = rdfa_version state, default_curie_uri = dcu,
               default_term_uri = dtu, terms = terms_ref, ns = ns_ref \<rparr>, s6))"

section \<open>State.py: the constructor of the execution context\<close>





section \<open>Invariants and sample inputs used by the properties\<close>

text \<open>
  Blank node identifiers are drawn from the counter, and identifier 0 is the anonymous
  blank node of the module: every registered local name has an identifier between the two.
  The invariant holds in \<open>init_session\<close> and every call of \<open>CURIE_to_URI\<close> keeps it.
\<close>

definition bnodes_inv :: "session \<Rightarrow> bool" where
  "bnodes_inv s = (0 < bnode_counter s \<and> list_all (\<lambda>(k, b). 0 < b \<and> b < bnode_counter s) (bnodes s))"

text \<open>A sequence of calls of \<^verbatim>\<open>CURIE_to_URI\<close>, on any instances, threading the session.\<close>

fun CURIE_calls :: "(TermOrCurie \<times> string) list \<Rightarrow> session \<Rightarrow> session" where
  "CURIE_calls [] s = s"
| "CURIE_calls ((tc, val) # cs) s = CURIE_calls cs (snd (CURIE_to_URI tc val s))"

text \<open>A vocabulary object of a root node without declarations, in RDFa 1.1.\<close>

definition sample_curie :: TermOrCurie where
  "sample_curie = \<lparr> state_rdfa_version = ''1.1'', default_curie_uri = XHTML_URI,
     default_term_uri = None, terms = 0, ns = 1 \<rparr>"

text \<open>
  A sample world for the concrete instances: a scheme is the text before the first colon,
  two profile documents in Turtle are on the web, every other URI answers 404.
  Profile \<open>http://a\<close> declares the term \<open>a\<close> and a default vocabulary, profile
  \<open>http://b\<close> declares the term \<open>b\<close>.
\<close>

definition sample_scheme :: "string \<Rightarrow> string" where
  "sample_scheme u = (if CHR '':'' \<in> set u then takeWhile (\<lambda>c. c \<noteq> CHR '':'') u else [])"

definition sample_ns_rdfa :: string where
  "sample_ns_rdfa = ''rdfa#''"

definition graph_a :: graph where
  "graph_a = [(BNode 7, URIRef (sample_ns_rdfa @ ''term''), Literal ''a''),
              (BNode 7, URIRef (sample_ns_rdfa @ ''uri''), Literal ''http://ex/a''),
              (BNode 8, URIRef (sample_ns_rdfa @ ''vocabulary''), URIRef ''http://voc/'')]"

definition graph_b :: graph where
  "graph_b = [(BNode 7, URIRef (sample_ns_rdfa @ ''term''), Literal ''b''),
              (BNode 7, URIRef (sample_ns_rdfa @ ''uri''), Literal ''http://ex/b'')]"

definition sample_web :: "(string \<times> content) list" where
  "sample_web = [(''http://a'', \<lparr> content_type = ''text/turtle'', data = ''A'' \<rparr>),
                 (''http://b'', \<lparr> content_type = ''text/turtle'', data = ''B'' \<rparr>),
                 (''http://c'', \<lparr> content_type = ''image/png'', data = ''C'' \<rparr>)]"

definition sample_env :: env where
  "sample_env = \<lparr>
     urlsplit_scheme = sample_scheme,
     urljoin = (\<lambda>b v. if sample_scheme v = [] then b @ v else v),
     quote_URI = (\<lambda>u. (u, [])),
     CachedURIOpener = (\<lambda>u. case map_of sample_web u of Some c \<Rightarrow> Inr c
                              | None \<Rightarrow> Inl (HTTPError ''Not Found'' 404)),
     parse_n3 = (\<lambda>d. case map_of [(''A'', graph_a), (''B'', graph_b)] d of Some g \<Rightarrow> Inr g
                       | None \<Rightarrow> Inl ''syntax error''),
     parse_rdfxml = (\<lambda>d. Inl ''syntax error''),
     parse_nt = (\<lambda>d. Inl ''syntax error''),
     graph_from_source = (\<lambda>d. Inl ''syntax error''),
     MediaTypes_turtle = ''text/turtle'',
     MediaTypes_rdfxml = ''application/rdf+xml'',
     MediaTypes_nt = ''text/plain'',
     MediaTypes_xhtml = ''application/xhtml+xml'',
     MediaTypes_html = ''text/html'',
     MediaTypes_xml = ''application/xml'',
     ns_rdfa = sample_ns_rdfa,
     rdfa_current_version = ''1.1'',
     default_host_language = rdfa_core \<rparr>"

text \<open>A state for a node with the given attributes, base \<open>http://h/\<close>, in the given version.\<close>

definition sample_attr :: "string \<Rightarrow> string \<Rightarrow> attr" where
  "sample_attr n v = \<lparr> a_name = n, a_localName = (if CHR '':'' \<in> set n then tl (dropWhile (\<lambda>c. c \<noteq> CHR '':'') n) else n),
                        a_value = v \<rparr>"

definition sample_core :: "string \<Rightarrow> attr list \<Rightarrow> ctx_core" where
  "sample_core v as = \<lparr> node = Element ''div'' as [], rdfa_version = v, base = ''http://h/'',
     host_language = rdfa_core, parsedBase_scheme = ''http'' \<rparr>"

definition sample_state :: "string \<Rightarrow> attr list \<Rightarrow> ExecutionContext" where
  "sample_state v as = ctx_core.extend (sample_core v as)
     \<lparr> curie = sample_curie\<lparr> state_rdfa_version := v \<rparr>, lang = None, defaultNS = None \<rparr>"

text \<open>The session in which the two dictionaries of \<open>sample_curie\<close> exist, both empty.\<close>

definition sample_session :: session where
  "sample_session = init_session\<lparr> heap := [[], []] \<rparr>"








text \<open>Root states of nodes with \<^verbatim>\<open>profile="http://a"\<close> and \<^verbatim>\<open>profile="http://a http://b"\<close>,
  and the session after the profile of the first has been read once.\<close>

definition profile_a_state :: ctx_core where
  "profile_a_state = sample_core ''1.1'' [sample_attr ''profile'' ''http://a'']"

definition profile_ab_state :: ctx_core where
  "profile_ab_state = sample_core ''1.1'' [sample_attr ''profile'' ''http://a http://b'']"

definition session_after_a :: session where
  "session_after_a = snd (ProfileRead_init sample_env profile_a_state init_session)"

text \<open>
  The key under which the loop over the attributes stores an attribute in the local
  dictionary: the attribute is an \<^verbatim>\<open>xmlns:\<close> declaration whose prefix is not empty, is
  not \<open>_\<close> and has no colon; the key is the prefix, in lower case from version 1.1 on.
  \<open>None\<close> for every other attribute.
\<close>

definition xmlns_key :: "string \<Rightarrow> attr \<Rightarrow> string option" where
  "xmlns_key version a =
     (if starts_with ''xmlns:'' (a_name a) \<and> a_localName a \<noteq> [] \<and> a_localName a \<noteq> ''_''
         \<and> CHR '':'' \<notin> set (a_localName a)
      then Some (if version_ge_1_1 version then lower (a_localName a) else a_localName a)
      else None)"

text \<open>A root node that declares the prefix \<open>ex\<close> with \<^verbatim>\<open>xmlns:ex\<close> and again, with another
  URI, in \<^verbatim>\<open>@prefix\<close>, where it also declares \<open>foo\<close> twice.\<close>

definition prefix_attrs :: "attr list" where
  "prefix_attrs = [sample_attr ''xmlns:ex'' ''http://x/'',
                   sample_attr ''prefix'' ''ex: http://y/ foo: http://f/ foo: http://g/'']"

definition prefix_state :: ctx_core where
  "prefix_state = sample_core ''1.1'' prefix_attrs"

definition prefix_curie :: TermOrCurie where
  "prefix_curie = \<lparr> state_rdfa_version = ''1.1'', default_curie_uri = XHTML_URI,
     default_term_uri = None, terms = 2, ns = 3 \<rparr>"

definition prefix_session :: session where
  "prefix_session = init_session\<lparr> heap := [[], [], [], [(''ex'', ''http://x/''), (''foo'', ''http://f/'')]],
     graph_bindings := [(XHTML_PREFIX, XHTML_URI), (''ex'', ''http://x/''), (''foo'', ''http://f/'')] \<rparr>"

text \<open>
  The references held by the profile cache, and the invariant of the store: every cached
  reference points into the store, and every dictionary of the store has unique keys (as
  a Python dictionary has).  \<open>init_session\<close> satisfies it and the constructors keep it.
\<close>

definition cache_refs :: "session \<Rightarrow> ref list" where
  "cache_refs s = concat (map (\<lambda>(u, t, n). [t, n]) (profile_cache s))"

definition store_inv :: "session \<Rightarrow> bool" where
  "store_inv s = (list_all (\<lambda>r. r < length (heap s)) (cache_refs s)
                  \<and> list_all (\<lambda>d. distinct (map fst d)) (heap s))"

text \<open>Two sessions with the same store, cache and stack: they differ in the logs only
  (warnings, fetches, bindings of the graph) and in the blank nodes.\<close>

definition same_store :: "session \<Rightarrow> session \<Rightarrow> bool" where
  "same_store s s' = (heap s' = heap s \<and> profile_cache s' = profile_cache s
                      \<and> profile_stack s' = profile_stack s)"

text \<open>A child node without declarations under \<open>sample_state\<close>, and what its vocabulary
  object and session are.\<close>

definition child_curie :: TermOrCurie where
  "child_curie = \<lparr> state_rdfa_version = ''1.1'', default_curie_uri = XHTML_URI,
     default_term_uri = None, terms = 0, ns = 1 \<rparr>"

definition child_session :: session where
  "child_session = init_session\<lparr> heap := [[], [], [], []] \<rparr>"

text \<open>A step from \<open>s\<close> to \<open>s'\<close> that writes to no dictionary outside \<open>W\<close>, allocates
  nothing, leaves the cache alone and keeps the invariant of the store.\<close>

definition writes_only :: "ref list \<Rightarrow> session \<Rightarrow> session \<Rightarrow> bool" where
  "writes_only W s s' =
     (length (heap s') = length (heap s) \<and> profile_cache s' = profile_cache s
      \<and> (\<forall>r. r \<notin> set W \<longrightarrow> dict_at s' r = dict_at s r)
      \<and> (store_inv s \<longrightarrow> store_inv s'))"

text \<open>References \<open>R\<close> that neither the cache nor the reader holds, in a store that satisfies
  the invariant and contains the reader's two dictionaries.\<close>

definition reader_apart :: "ref list \<Rightarrow> ProfileRead \<Rightarrow> session \<Rightarrow> bool" where
  "reader_apart R self s =
     (store_inv s \<and> pr_terms self < length (heap s) \<and> pr_ns self < length (heap s)
      \<and> list_all (\<lambda>r. r \<notin> set (cache_refs s) \<and> r \<noteq> pr_terms self \<and> r \<noteq> pr_ns self) R)"

text \<open>References that exist in the store and that the cache does not hold.\<close>

definition outside_cache :: "ref list \<Rightarrow> session \<Rightarrow> bool" where
  "outside_cache R s = list_all (\<lambda>r. r < length (heap s) \<and> r \<notin> set (cache_refs s)) R"

section \<open>Properties\<close>

text \<open>
  The remainder states and proves the properties of the two modules, each under the
  identifier of the claim it settles.
\<close>

subsection \<open>Blank nodes of CURIEs\<close>






text \<open>A call leaves the session as it is or registers one new local name.\<close>

lemma CURIE_parts_session:
  "snd (CURIE_parts tc p r s) = s \<or>
   (map_of (bnodes s) r = None \<and>
        snd (CURIE_parts tc p r s) =
          s\<lparr> bnode_counter := Suc (bnode_counter s), bnodes := AList.update r (bnode_counter s) (bnodes s) \<rparr>)"
  by (simp add: CURIE_parts_def new_BNode_def split: option.split)

lemma CURIE_to_URI_session:
  "snd (CURIE_to_URI tc v s) = s \<or>
   (\<exists>r. map_of (bnodes s) r = None \<and>
        snd (CURIE_to_URI tc v s) =
          s\<lparr> bnode_counter := Suc (bnode_counter s), bnodes := AList.update r (bnode_counter s) (bnodes s) \<rparr>)"
proof (cases "v = [] \<or> v = '':'' \<or> length (split_colon v) = 1")
  case True
  then show ?thesis by (auto simp: CURIE_to_URI_def)
next
  case False
  then obtain p r where "CURIE_to_URI tc v s = CURIE_parts tc p r s"
    by (auto simp: CURIE_to_URI_def Let_def)
  with CURIE_parts_session [of tc p r s] show ?thesis by auto
qed




lemma list_all_update:
  "list_all (\<lambda>(k, b). P b) al \<Longrightarrow> P v \<Longrightarrow> list_all (\<lambda>(k, b). P b) (AList.update k v al)"
  by (induction al) auto

lemma CURIE_bnodes_inv:
  assumes "bnodes_inv s"
  shows "bnodes_inv (snd (CURIE_to_URI tc v s))"
proof -
  have weaken: "list_all (\<lambda>(k, b). 0 < b \<and> b < Suc (bnode_counter s)) (bnodes s)"
    using assms by (auto simp: bnodes_inv_def list_all_iff)
  have fresh: "bnodes_inv (s\<lparr> bnode_counter := Suc (bnode_counter s),
                 bnodes := AList.update r (bnode_counter s) (bnodes s) \<rparr>)" for r
    using assms list_all_update [where P = "\<lambda>b. 0 < b \<and> b < Suc (bnode_counter s)", OF weaken]
    by (simp add: bnodes_inv_def)
  show ?thesis
    using CURIE_to_URI_session [of tc v s] assms fresh by auto
qed

lemma CURIE_calls_inv: "bnodes_inv s \<Longrightarrow> bnodes_inv (CURIE_calls cs s)"
  by (induction cs arbitrary: s) (auto simp: CURIE_bnodes_inv)




subsection \<open>The GRDDL profile\<close>

lemma profile_step_GRDDL: "profile_step e GRDDL_PROFILE self s = (Inr self, s)"
  by (simp add: profile_step_def)

lemma profile_loop_append:
  "profile_loop e (ps @ qs) self s =
     (case profile_loop e ps self s of
        (Inl err, s') \<Rightarrow> (Inl err, s')
      | (Inr self', s') \<Rightarrow> profile_loop e qs self' s')"
  by (induction ps arbitrary: self s) (auto split: prod.splits sum.splits)

text \<open>
  C10.  The round of the profile loop for the GRDDL profile URI returns the reader and
  the session as they are: nothing is fetched (\<open>fetch_log\<close>), the stack, the cache and
  the dictionaries of the store are untouched, the reader keeps its terms, namespaces and
  vocabulary.  So a list of profiles with the GRDDL URI in it gives the result, and the
  session, of the list without it.
\<close>

theorem grddl_profile_skipped:
  "profile_step e GRDDL_PROFILE self s = (Inr self, s) \<and>
   profile_loop e (ps @ GRDDL_PROFILE # qs) self s = profile_loop e (ps @ qs) self s"
proof -
  have "profile_loop e (GRDDL_PROFILE # qs) self' s' = profile_loop e qs self' s'" for self' s'
    by (simp add: profile_step_GRDDL)
  then show ?thesis
    by (simp add: profile_step_GRDDL profile_loop_append del: profile_loop.simps
          split: prod.splits sum.splits)
qed

theorem grddl_profile_skipped_witness:
  "ProfileRead_init sample_env
      (sample_core ''1.1'' [sample_attr ''profile'' ''http://www.w3.org/2003/g/data-view'']) init_session
   = (Inr \<lparr> pr_terms = 0, pr_ns = 1, pr_vocabulary = None \<rparr>, init_session\<lparr> heap := [[], []] \<rparr>)"
proof -
  have "profile_loop sample_env [GRDDL_PROFILE] \<lparr> pr_terms = 0, pr_ns = 1, pr_vocabulary = None \<rparr>
          (init_session\<lparr> heap := [[], []] \<rparr>)
        = (Inr \<lparr> pr_terms = 0, pr_ns = 1, pr_vocabulary = None \<rparr>, init_session\<lparr> heap := [[], []] \<rparr>)"
    using grddl_profile_skipped [of sample_env "\<lparr> pr_terms = 0, pr_ns = 1, pr_vocabulary = None \<rparr>"
            "init_session\<lparr> heap := [[], []] \<rparr>" "[]" "[]"]
    by simp
  moreover have "ProfileRead_init sample_env
      (sample_core ''1.1'' [sample_attr ''profile'' ''http://www.w3.org/2003/g/data-view'']) init_session
    = profile_loop sample_env [GRDDL_PROFILE] \<lparr> pr_terms = 0, pr_ns = 1, pr_vocabulary = None \<rparr>
          (init_session\<lparr> heap := [[], []] \<rparr>)"
    by code_simp
  ultimately show ?thesis by simp
qed

subsection \<open>Attributes without an entry in the dispatch table\<close>




subsection \<open>Terms, CURIEs and absolute URIs\<close>

lemma version_1_0_below: "\<not> version_ge_1_1 ''1.0''"
  by (simp add: version_ge_1_1_def)

text \<open>
  C3, as the code has it.  Let \<open>val\<close> be a non-empty value that is not NCNAME-shaped and
  for which \<open>CURIE_to_URI\<close> returns \<open>None\<close>, leaving the session \<open>s1\<close>.  In a version from
  1.1 on, \<open>p_TERMorCURIEorAbsURI\<close> returns the value itself as a URI exactly when its
  scheme is not empty (with the warning about an unusual scheme when the scheme is not a
  usual one), and \<open>None\<close> with one warning of kind \<open>UnresolvablePrefix\<close> when the scheme is
  empty.  In a version below 1.1, of which 1.0 is one, it returns \<open>None\<close> with one warning
  of kind \<open>UnresolvablePrefix\<close>, whatever the scheme.  The empty value is answered
  before any resolution, with \<open>None\<close> and no warning.
\<close>

theorem abs_URI_fallback_by_version:
  assumes "val \<noteq> []" and "\<not> ncname_match val"
    and "CURIE_to_URI (curie self) val s = (None, s1)"
  shows "(version_ge_1_1 (rdfa_version self) \<and> urlsplit_scheme e val \<noteq> [] \<longrightarrow>
            p_TERMorCURIEorAbsURI e self val s =
              (Some (URIRef val),
               if urlsplit_scheme e val \<notin> set usual_schemes
               then add_warning (''Unusual URI scheme used <'' @ strip val @ ''>; may that be a mistake?'')
                      None None s1
               else s1))
       \<and> (version_ge_1_1 (rdfa_version self) \<and> urlsplit_scheme e val = [] \<longrightarrow>
            p_TERMorCURIEorAbsURI e self val s =
              (None, add_warning (''Relative URI is not allowed in this position: ['' @ val @ '']'')
                       (Some UnresolvablePrefix) None s1))
       \<and> (\<not> version_ge_1_1 (rdfa_version self) \<longrightarrow>
            p_TERMorCURIEorAbsURI e self val s =
              (None, add_warning (''CURIE was used but value does not correspond to a defined CURIE: ''
                                    @ strip val) (Some UnresolvablePrefix) None s1))
       \<and> \<not> version_ge_1_1 ''1.0''
       \<and> p_TERMorCURIEorAbsURI e self [] s = (None, s)"
  using assms by (simp add: p_TERMorCURIEorAbsURI_def Let_def version_1_0_below)

theorem abs_URI_fallback_by_version_witness:
  "''foo:bar'' \<noteq> [] \<and> \<not> ncname_match ''foo:bar'' \<and>
   CURIE_to_URI (curie (sample_state ''1.0'' [])) ''foo:bar'' sample_session = (None, sample_session) \<and>
   CURIE_to_URI (curie (sample_state ''1.1'' [])) ''foo:bar'' sample_session = (None, sample_session) \<and>
   fst (p_TERMorCURIEorAbsURI sample_env (sample_state ''1.0'' []) ''foo:bar'' sample_session) = None \<and>
   fst (p_TERMorCURIEorAbsURI sample_env (sample_state ''1.1'' []) ''foo:bar'' sample_session)
     = Some (URIRef ''foo:bar'')"
proof -
  have h1: "''foo:bar'' \<noteq> []" by simp
  have h2: "\<not> ncname_match ''foo:bar''" by code_simp
  have h3: "CURIE_to_URI (curie (sample_state ''1.0'' [])) ''foo:bar'' sample_session = (None, sample_session)"
    by code_simp
  have h4: "CURIE_to_URI (curie (sample_state ''1.1'' [])) ''foo:bar'' sample_session = (None, sample_session)"
    by code_simp
  have v0: "\<not> version_ge_1_1 (rdfa_version (sample_state ''1.0'' []))" by code_simp
  have v1: "version_ge_1_1 (rdfa_version (sample_state ''1.1'' []))" by code_simp
  have sc: "urlsplit_scheme sample_env ''foo:bar'' \<noteq> []" by code_simp
  show ?thesis
    using abs_URI_fallback_by_version [OF h1 h2 h3, of sample_env]
      abs_URI_fallback_by_version [OF h1 h2 h4, of sample_env] h1 h2 h3 h4 v0 v1 sc
    by simp
qed

text \<open>C3 as it is written does not hold at the empty value: no warning is emitted there.\<close>

theorem empty_value_no_warning_counterexample:
  "\<not> ncname_match [] \<and>
   CURIE_to_URI (curie (sample_state ''1.0'' [])) [] sample_session = (None, sample_session) \<and>
   p_TERMorCURIEorAbsURI sample_env (sample_state ''1.0'' []) [] sample_session = (None, sample_session) \<and>
   warnings sample_session = []"
  by code_simp

subsection \<open>The language of a node\<close>







subsection \<open>Failing and cyclic profiles\<close>

lemma p_get_graph_session:
  "snd (p_get_graph e name s) = s\<lparr> fetch_log := fetch_log s @ [name] \<rparr>"
  by (simp add: p_get_graph_def Let_def split: sum.splits open_error.splits)





lemma profile_step_on_stack:
  "prof \<in> set (profile_stack s) \<Longrightarrow> profile_step e prof self s = (Inr self, s)"
  by (simp add: profile_step_def)





subsection \<open>The profile cache\<close>

text \<open>On a cache hit the round gives the reader the two cached dictionaries, by reference,
  and changes neither its vocabulary nor the session: nothing is fetched.\<close>

lemma profile_step_cache_hit:
  assumes "prof \<noteq> GRDDL_PROFILE" and "prof \<notin> set (profile_stack s)"
    and "map_of (profile_cache s) prof = Some (t, n)"
  shows "profile_step e prof self s = (Inr (self\<lparr> pr_terms := t, pr_ns := n \<rparr>), s)"
  using assms by (simp add: profile_step_def Let_def)

text \<open>
  C1.  The cache maps a profile URI to the pair of the reader's term and namespace
  dictionaries; the vocabulary is not part of the entry, and the branch of the loop that
  takes an entry out of the cache does not set it.  In the sample world profile
  \<open>http://a\<close> declares the default vocabulary \<open>http://voc/\<close>.  The first reader of a node
  with that profile fetches it, has the vocabulary, and leaves the entry \<open>(0, 1)\<close> in the
  cache.  A second reader of the same node, in the session the first one left, fetches
  nothing and gets the same two dictionaries, but its vocabulary is \<open>None\<close>; the
  vocabulary object of the node then has no default term URI, where the first had
  \<open>http://voc/\<close>.
\<close>

theorem cached_profile_loses_vocabulary:
  "fst (ProfileRead_init sample_env profile_a_state init_session)
     = Inr \<lparr> pr_terms = 0, pr_ns = 1, pr_vocabulary = Some (URIRef ''http://voc/'') \<rparr>
   \<and> profile_cache session_after_a = [(''http://a'', 0, 1)]
   \<and> fetch_log session_after_a = [''http://a'']
   \<and> fst (ProfileRead_init sample_env profile_a_state session_after_a)
       = Inr \<lparr> pr_terms = 0, pr_ns = 1, pr_vocabulary = None \<rparr>
   \<and> fetch_log (snd (ProfileRead_init sample_env profile_a_state session_after_a)) = [''http://a'']
   \<and> map_sum id default_term_uri (fst (TermOrCurie_init sample_env profile_a_state None init_session))
       = Inr (Some ''http://voc/'')
   \<and> map_sum id default_term_uri (fst (TermOrCurie_init sample_env profile_a_state None session_after_a))
       = Inr None"
  by code_simp

text \<open>
  C2.  When the profiles of a node are all fetched, their bindings accumulate in the
  reader's dictionaries.  When a profile is answered from the cache, the reader's
  dictionaries are replaced by the cached ones and what the profiles before it in the
  loop contributed is dropped.  In the sample world, with \<open>http://a\<close> in the cache, the
  reader of \<^verbatim>\<open>profile="http://a http://b"\<close> processes \<open>http://b\<close> first and fetches it
  (it declares the term \<open>b\<close>), then takes \<open>http://a\<close> from the cache: its terms are those
  of \<open>http://a\<close> alone, and the value \<open>b\<close> of a \<^verbatim>\<open>rel\<close> attribute does not resolve.  In a
  session with an empty cache the same reader has both terms and \<open>b\<close> resolves.
\<close>

theorem cache_hit_drops_earlier_bindings:
  "map_of (profile_cache session_after_a) ''http://a'' = Some (0, 1)
   \<and> fetch_log (snd (ProfileRead_init sample_env profile_ab_state session_after_a))
       = [''http://a'', ''http://b'']
   \<and> (case ProfileRead_init sample_env profile_ab_state session_after_a of
         (Inr r, s) \<Rightarrow> map_of (dict_at s (pr_terms r)) ''a'' = Some ''http://ex/a''
                       \<and> map_of (dict_at s (pr_terms r)) ''b'' = None
       | (Inl err, s) \<Rightarrow> False)
   \<and> (case ProfileRead_init sample_env profile_ab_state init_session of
         (Inr r, s) \<Rightarrow> map_of (dict_at s (pr_terms r)) ''a'' = Some ''http://ex/a''
                       \<and> map_of (dict_at s (pr_terms r)) ''b'' = Some ''http://ex/b''
       | (Inl err, s) \<Rightarrow> False)
   \<and> (case TermOrCurie_init sample_env profile_ab_state None session_after_a of
         (Inr tc, s) \<Rightarrow> fst (p_TERMorCURIEorAbsURI sample_env
                                (ctx_core.extend profile_ab_state \<lparr> curie = tc, lang = None, defaultNS = None \<rparr>)
                                ''b'' s) = None
       | (Inl err, s) \<Rightarrow> False)
   \<and> (case TermOrCurie_init sample_env profile_ab_state None init_session of
         (Inr tc, s) \<Rightarrow> fst (p_TERMorCURIEorAbsURI sample_env
                                (ctx_core.extend profile_ab_state \<lparr> curie = tc, lang = None, defaultNS = None \<rparr>)
                                ''b'' s) = Some (URIRef ''http://ex/b'')
       | (Inl err, s) \<Rightarrow> False)"
  by code_simp

subsection \<open>Dictionaries in the store\<close>

lemma dict_at_new_dict [simp]:
  "dict_at (snd (new_dict d s)) (fst (new_dict d s)) = d"
  by (simp add: new_dict_def dict_at_def)

lemma dict_at_new_dict_old [simp]:
  "r < length (heap s) \<Longrightarrow> dict_at (snd (new_dict d s)) r = dict_at s r"
  by (simp add: new_dict_def dict_at_def nth_append)

lemma distinct_dict_overlay:
  "distinct (map fst a) \<Longrightarrow> distinct (map fst (dict_overlay a b))"
  unfolding dict_overlay_def
  by (induction b arbitrary: a) (auto simp: distinct_update)

lemma map_of_dict_overlay:
  "distinct (map fst b) \<Longrightarrow> map_of (dict_overlay a b) = map_of a ++ map_of b"
proof (induction b arbitrary: a)
  case Nil
  then show ?case by (simp add: dict_overlay_def)
next
  case (Cons kv b)
  obtain k v where kv: "kv = (k, v)" by (cases kv)
  from Cons.prems kv have k: "k \<notin> dom (map_of b)" and d: "distinct (map fst b)"
    by (auto simp: dom_map_of_conv_image_fst)
  have none: "map_of b k = None"
    using k by (simp add: domIff)
  have "dict_overlay a (kv # b) = dict_overlay (AList.update k v a) b"
    by (simp add: dict_overlay_def kv)
  also have "map_of \<dots> = map_of (AList.update k v a) ++ map_of b"
    using d by (rule Cons.IH)
  also have "\<dots> = (map_of a)(k \<mapsto> v) ++ map_of b"
    by (simp only: update_conv')
  also have "\<dots> = map_of a ++ (map_of b)(k \<mapsto> v)"
    using none by (auto simp: map_add_def fun_eq_iff split: option.splits)
  also have "\<dots> = map_of a ++ map_of (kv # b)"
    by (simp add: kv)
  finally show ?case .
qed

subsection \<open>Namespace declarations and the prefix attribute\<close>

lemma prefix_pair_step_keeps:
  "map_of d k = Some v \<Longrightarrow> map_of (fst (prefix_pair_step e pr p val (d, dcu, s))) k = Some v"
  by (auto simp: prefix_pair_step_def Let_def update_conv' split: prod.splits)

lemma prefix_pair_step_distinct:
  "distinct (map fst d) \<Longrightarrow> distinct (map fst (fst (prefix_pair_step e pr p val (d, dcu, s))))"
  by (auto simp: prefix_pair_step_def Let_def distinct_update split: prod.splits)

lemma prefix_pairs_keeps:
  "map_of (fst st) k = Some v \<Longrightarrow> map_of (fst (prefix_pairs e pr toks st)) k = Some v"
proof (induction e pr toks st rule: prefix_pairs.induct)
  case (3 e pr prefix0 val rest st)
  obtain d dcu s where st: "st = (d, dcu, s)" by (cases st)
  show ?case
    using 3 prefix_pair_step_keeps [of d k v e pr prefix0 val dcu s] by (simp add: st)
qed simp_all

lemma prefix_pairs_distinct:
  "distinct (map fst (fst st)) \<Longrightarrow> distinct (map fst (fst (prefix_pairs e pr toks st)))"
proof (induction e pr toks st rule: prefix_pairs.induct)
  case (3 e pr prefix0 val rest st)
  obtain d dcu s where st: "st = (d, dcu, s)" by (cases st)
  show ?case
    using 3 prefix_pair_step_distinct [of d e pr prefix0 val dcu s] by (simp add: st)
qed simp_all

lemma prefix_pairs_first_writer:
  assumes "ncname_match k0" and "map_of d (lower k0) = None"
  shows "map_of (fst (prefix_pairs e pr ((k0 @ '':'') # val # rest) (d, dcu, s))) (lower k0)
           = Some (fst (quote_URI e val))"
proof -
  have ne: "k0 \<noteq> []" and nu: "k0 \<noteq> ''_''"
    using assms(1) by (auto simp: ncname_match_def is_alpha_def upper_chars_def lower_chars_def)
  have "map_of (fst (prefix_pair_step e pr (k0 @ '':'') val (d, dcu, s))) (lower k0)
          = Some (fst (quote_URI e val))"
    using assms ne nu
    by (simp add: prefix_pair_step_def Let_def update_conv' split: prod.splits)
  then show ?thesis
    by (simp add: prefix_pairs_keeps)
qed

lemma xmlns_step_dict:
  "fst (xmlns_step e v a (d, s)) =
     (case xmlns_key v a of
        Some k \<Rightarrow> AList.update k (fst (quote_URI e (a_value a))) d
      | None \<Rightarrow> d)"
  by (simp add: xmlns_step_def xmlns_key_def Let_def split: prod.splits)

lemma fold_xmlns_other_keys:
  "\<forall>a \<in> set as. xmlns_key v a \<noteq> Some k
     \<Longrightarrow> map_of (fst (fold (xmlns_step e v) as ds)) k = map_of (fst ds) k"
proof (induction as arbitrary: ds)
  case Nil
  then show ?case by simp
next
  case (Cons a as)
  obtain d s where ds: "ds = (d, s)" by (cases ds)
  have "map_of (fst (xmlns_step e v a (d, s))) k = map_of d k"
    using Cons.prems by (auto simp: xmlns_step_dict update_conv' split: option.splits)
  then show ?case
    using Cons by (simp add: ds)
qed

lemma fold_xmlns_distinct:
  "distinct (map fst (fst ds)) \<Longrightarrow> distinct (map fst (fst (fold (xmlns_step e v) as ds)))"
proof (induction as arbitrary: ds)
  case Nil
  then show ?case by simp
next
  case (Cons a as)
  obtain d s where ds: "ds = (d, s)" by (cases ds)
  have "distinct (map fst (fst (xmlns_step e v a (d, s))))"
    using Cons.prems by (auto simp: ds xmlns_step_dict distinct_update split: option.splits)
  then show ?case
    using Cons.IH by (simp add: ds)
qed

lemma fold_xmlns_last_declaration:
  assumes "xmlns_key v a = Some k" and "\<forall>a' \<in> set as2. xmlns_key v a' \<noteq> Some k"
  shows "map_of (fst (fold (xmlns_step e v) (as1 @ a # as2) ds)) k = Some (fst (quote_URI e (a_value a)))"
proof -
  obtain d s where ds1: "fold (xmlns_step e v) as1 ds = (d, s)"
    by (cases "fold (xmlns_step e v) as1 ds")
  have "map_of (fst (xmlns_step e v a (d, s))) k = Some (fst (quote_URI e (a_value a)))"
    using assms(1) by (simp add: xmlns_step_dict update_conv')
  then show ?thesis
    using fold_xmlns_other_keys [OF assms(2), of e "xmlns_step e v a (d, s)"]
    by (simp add: ds1)
qed

lemma distinct_overlay_empty: "distinct (map fst (dict_overlay [] b))"
  by (rule distinct_dict_overlay) simp

lemma local_prefixes_distinct:
  "distinct (map fst (fst (local_prefixes e state pns dcu s)))"
proof -
  obtain d s1 where f: "fold (xmlns_step e (rdfa_version state)) (attributes (node state))
                          (dict_overlay [] pns, s) = (d, s1)"
    by (cases "fold (xmlns_step e (rdfa_version state)) (attributes (node state)) (dict_overlay [] pns, s)")
  have d: "distinct (map fst d)"
    using fold_xmlns_distinct [of "(dict_overlay [] pns, s)" e "rdfa_version state" "attributes (node state)"]
      distinct_overlay_empty [of pns]
    by (simp add: f)
  then have "distinct (map fst (fst (prefix_pairs e pr toks (d, dcu, s1))))" for pr toks
    using prefix_pairs_distinct [of "(d, dcu, s1)" e pr toks] by simp
  with d show ?thesis
    by (simp add: local_prefixes_def f Let_def)
qed

lemma local_prefixes_xmlns:
  assumes "attributes (node state) = as1 @ a # as2"
    and "xmlns_key (rdfa_version state) a = Some k"
    and "\<forall>a' \<in> set as2. xmlns_key (rdfa_version state) a' \<noteq> Some k"
  shows "map_of (fst (local_prefixes e state pns dcu s)) k = Some (fst (quote_URI e (a_value a)))"
proof -
  obtain d s1 where f: "fold (xmlns_step e (rdfa_version state)) (attributes (node state))
                          (dict_overlay [] pns, s) = (d, s1)"
    by (cases "fold (xmlns_step e (rdfa_version state)) (attributes (node state)) (dict_overlay [] pns, s)")
  have d: "map_of d k = Some (fst (quote_URI e (a_value a)))"
    using fold_xmlns_last_declaration [OF assms(2,3), of e as1 "(dict_overlay [] pns, s)"] f
    by (simp add: assms(1))
  then have "map_of (fst (prefix_pairs e pr toks (d, dcu, s1))) k = Some (fst (quote_URI e (a_value a)))"
    for pr toks
    using prefix_pairs_keeps [of "(d, dcu, s1)" k _ e pr toks] by simp
  with d show ?thesis
    by (simp add: local_prefixes_def f Let_def)
qed

text \<open>The namespace dictionary of the new object comes from \<open>init_ns\<close>, applied to the
  local dictionary.\<close>

lemma TermOrCurie_init_ns:
  assumes "TermOrCurie_init e state inherited_state s = (Inr tc, s')"
  shows "\<exists>pns dcu0 s4 d dcu s5.
           local_prefixes e state pns dcu0 s4 = (d, dcu, s5) \<and> init_ns inherited_state d s5 = (ns tc, s')"
  using assms
  by (auto simp: TermOrCurie_init_def split: prod.splits sum.splits) blast

lemma init_ns_lookup:
  assumes "distinct (map fst d)" and "map_of d k = Some v" and "init_ns inherited_state d s = (r, s')"
  shows "map_of (dict_at s' r) k = Some v"
proof (cases inherited_state)
  case None
  with assms(3) have "r = fst (new_dict d s)" and "s' = snd (new_dict d s)"
    by (simp_all add: init_ns_def)
  with assms(2) show ?thesis by simp
next
  case (Some inh)
  let ?m = "dict_overlay (dict_overlay [] (dict_at s (ns (curie inh)))) d"
  from assms(2) have "d \<noteq> []" by auto
  with Some assms(3) have "r = fst (new_dict ?m s)" and "s' = snd (new_dict ?m s)"
    by (simp_all add: init_ns_def)
  then have "dict_at s' r = ?m" by simp
  then show ?thesis
    using assms(1,2) by (simp add: map_of_dict_overlay map_add_find_right)
qed

text \<open>
  C4.  Let the constructor of the vocabulary object succeed on a node that has an
  \<^verbatim>\<open>xmlns:\<close> declaration \<open>a\<close> stored under the key \<open>k\<close>, with no later \<^verbatim>\<open>xmlns:\<close>
  declaration of the node stored under \<open>k\<close>.  Then the namespace dictionary of the object
  binds \<open>k\<close> to the (quoted) URI of \<open>a\<close>, whatever the \<^verbatim>\<open>@prefix\<close> attribute of the node
  says.  The reason: the loop over the pairs of \<^verbatim>\<open>@prefix\<close> keeps every binding that is in
  the local dictionary when it starts, and a pair whose key is new at its turn is stored
  and kept against every later pair.
\<close>

theorem xmlns_beats_prefix_attribute:
  assumes "TermOrCurie_init e state inherited_state s = (Inr tc, s')"
    and "attributes (node state) = as1 @ a # as2"
    and "xmlns_key (rdfa_version state) a = Some k"
    and "\<forall>a' \<in> set as2. xmlns_key (rdfa_version state) a' \<noteq> Some k"
  shows "map_of (dict_at s' (ns tc)) k = Some (fst (quote_URI e (a_value a)))
       \<and> (\<forall>d key v pr toks dcu s0.
            map_of d key = Some v \<longrightarrow> map_of (fst (prefix_pairs e pr toks (d, dcu, s0))) key = Some v)
       \<and> (\<forall>d k0 pr val rest dcu s0.
            ncname_match k0 \<and> map_of d (lower k0) = None \<longrightarrow>
            map_of (fst (prefix_pairs e pr ((k0 @ '':'') # val # rest) (d, dcu, s0))) (lower k0)
              = Some (fst (quote_URI e val)))"
proof -
  obtain pns dcu0 s4 d dcu s5 where
    lp: "local_prefixes e state pns dcu0 s4 = (d, dcu, s5)" and
    ini: "init_ns inherited_state d s5 = (ns tc, s')"
    using TermOrCurie_init_ns [OF assms(1)] by blast
  have dist: "distinct (map fst d)"
    using local_prefixes_distinct [of e state pns dcu0 s4] by (simp add: lp)
  have bound: "map_of d k = Some (fst (quote_URI e (a_value a)))"
    using local_prefixes_xmlns [OF assms(2-4), of e pns dcu0 s4] by (simp add: lp)
  have first: "map_of (dict_at s' (ns tc)) k = Some (fst (quote_URI e (a_value a)))"
    using dist bound ini by (rule init_ns_lookup)
  have keeps: "map_of (fst (prefix_pairs e pr toks (d', dcu', s0))) key = Some v"
    if "map_of d' key = Some v" for d' key v pr toks dcu' s0
    using prefix_pairs_keeps [of "(d', dcu', s0)" key v e pr toks] that by simp
  from first keeps prefix_pairs_first_writer show ?thesis by blast
qed

theorem xmlns_beats_prefix_attribute_witness:
  "TermOrCurie_init sample_env prefix_state None init_session = (Inr prefix_curie, prefix_session) \<and>
   attributes (node prefix_state)
     = [] @ sample_attr ''xmlns:ex'' ''http://x/''
          # [sample_attr ''prefix'' ''ex: http://y/ foo: http://f/ foo: http://g/''] \<and>
   xmlns_key (rdfa_version prefix_state) (sample_attr ''xmlns:ex'' ''http://x/'') = Some ''ex'' \<and>
   xmlns_key (rdfa_version prefix_state)
     (sample_attr ''prefix'' ''ex: http://y/ foo: http://f/ foo: http://g/'') = None \<and>
   map_of (dict_at prefix_session (ns prefix_curie)) ''ex'' = Some ''http://x/''"
proof -
  have run: "TermOrCurie_init sample_env prefix_state None init_session = (Inr prefix_curie, prefix_session)"
    by code_simp
  have attrs: "attributes (node prefix_state)
     = [] @ sample_attr ''xmlns:ex'' ''http://x/''
          # [sample_attr ''prefix'' ''ex: http://y/ foo: http://f/ foo: http://g/'']"
    by code_simp
  have key: "xmlns_key (rdfa_version prefix_state) (sample_attr ''xmlns:ex'' ''http://x/'') = Some ''ex''"
    by code_simp
  have later: "\<forall>a' \<in> set [sample_attr ''prefix'' ''ex: http://y/ foo: http://f/ foo: http://g/''].
       xmlns_key (rdfa_version prefix_state) a' \<noteq> Some ''ex''"
    by code_simp
  have q: "fst (quote_URI sample_env (a_value (sample_attr ''xmlns:ex'' ''http://x/''))) = ''http://x/''"
    by code_simp
  have none: "xmlns_key (rdfa_version prefix_state)
     (sample_attr ''prefix'' ''ex: http://y/ foo: http://f/ foo: http://g/'') = None"
    by code_simp
  from xmlns_beats_prefix_attribute [OF run attrs key later] run attrs key none q
  show ?thesis by simp
qed

subsection \<open>The dispatch inside the constructors\<close>

text \<open>On an attribute whose strategy is the plain URI one, \<open>getURI\<close> is \<open>getURI_plain\<close>;
  \<^verbatim>\<open>profile\<close> and \<^verbatim>\<open>vocab\<close> are such attributes.\<close>

lemma getURI_plain_agrees:
  assumes "map_of resource_type a = Some S_URI"
  shows "getURI e self a s = getURI_plain e self a s"
proof -
  have "run_strategy e S_URI self = (\<lambda>v s. case p_URI e self v s of (u, s') \<Rightarrow> (Some u, s'))"
    by (simp add: fun_eq_iff)
  then show ?thesis
    using assms by (simp add: getURI_def getURI_plain_def Let_def)
qed

lemma profile_and_vocab_plain:
  "map_of resource_type ''profile'' = Some S_URI" "map_of resource_type ''vocab'' = Some S_URI"
  by (simp_all add: resource_type_def)

lemma store_inv_init: "store_inv init_session"
  by (simp add: store_inv_def init_session_def cache_refs_def)

subsection \<open>What the constructors do to the store\<close>

lemma same_store_refl [simp]: "same_store s s"
  by (simp add: same_store_def)

lemma same_store_trans: "same_store s s1 \<Longrightarrow> same_store s1 s2 \<Longrightarrow> same_store s s2"
  by (simp add: same_store_def)

lemma same_store_add_warning [simp]: "same_store s (add_warning txt kind cx s)"
  by (simp add: same_store_def add_warning_def)

lemma same_store_add_warnings [simp]: "same_store s (add_warnings ws s)"
  by (simp add: same_store_def add_warnings_def)

lemma same_store_graph_bind [simp]: "same_store s (graph_bind p u s)"
  by (simp add: same_store_def graph_bind_def)

lemma same_store_dict_at: "same_store s s' \<Longrightarrow> dict_at s' r = dict_at s r"
  by (simp add: same_store_def dict_at_def)

lemma same_store_cache_refs: "same_store s s' \<Longrightarrow> cache_refs s' = cache_refs s"
  by (simp add: same_store_def cache_refs_def)

lemma same_store_inv: "same_store s s' \<Longrightarrow> store_inv s' = store_inv s"
  by (simp add: same_store_def store_inv_def cache_refs_def)

lemma same_store_heap: "same_store s s' \<Longrightarrow> heap s' = heap s"
  by (simp add: same_store_def)

lemma same_store_check_create_URIRef: "same_store s (snd (check_create_URIRef e uri s))"
  by (simp add: check_create_URIRef_def Let_def)

lemma same_store_p_URI: "same_store s (snd (p_URI e self val s))"
  by (simp add: p_URI_def Let_def same_store_check_create_URIRef)

lemma same_store_resolve_all:
  assumes "\<And>v s. same_store s (snd (f v s))"
  shows "same_store s (snd (resolve_all f vs s))"
proof (induction vs arbitrary: s)
  case Nil
  then show ?case by simp
next
  case (Cons v vs)
  obtain r s1 where f: "f (strip v) s = (r, s1)" by (cases "f (strip v) s")
  obtain rs s2 where rest: "resolve_all f vs s1 = (rs, s2)" by (cases "resolve_all f vs s1")
  have "same_store s s1" using assms [of s "strip v"] by (simp add: f)
  moreover have "same_store s1 s2" using Cons [of s1] by (simp add: rest)
  ultimately show ?case
    by (simp add: f rest same_store_trans)
qed

lemma snd_case_prod: "snd (case p of (a, b) \<Rightarrow> (f a, b)) = snd p"
  by (cases p) simp

lemma same_store_getURI_plain: "same_store s (snd (getURI_plain e self a s))"
proof -
  let ?f = "\<lambda>v s. case p_URI e self v s of (u, s') \<Rightarrow> (Some u, s')"
  have f: "same_store s (snd (?f v s))" for v s
    using same_store_p_URI [of s e self v] by (cases "p_URI e self v s") simp
  have "same_store s (snd (resolve_all ?f vs s))" for vs
    using f by (rule same_store_resolve_all)
  then show ?thesis
    using f by (simp add: getURI_plain_def Let_def snd_case_prod)
qed

lemma new_dict_facts:
  "fst (new_dict d s) = length (heap s)"
  "length (heap (snd (new_dict d s))) = Suc (length (heap s))"
  "profile_cache (snd (new_dict d s)) = profile_cache s"
  "cache_refs (snd (new_dict d s)) = cache_refs s"
  by (simp_all add: new_dict_def cache_refs_def)

lemma store_inv_new_dict:
  assumes "store_inv s" and "distinct (map fst d)"
  shows "store_inv (snd (new_dict d s))"
proof -
  have "heap (snd (new_dict d s)) = heap s @ [d]"
    by (simp add: new_dict_def)
  then show ?thesis
    using assms by (auto simp: store_inv_def new_dict_facts list_all_iff)
qed

lemma store_inv_dict_distinct: "store_inv s \<Longrightarrow> distinct (map fst (dict_at s r))"
  by (auto simp: store_inv_def dict_at_def list_all_iff)

lemma store_inv_cached:
  "store_inv s \<Longrightarrow> map_of (profile_cache s) prof = Some (t, n)
     \<Longrightarrow> t < length (heap s) \<and> n < length (heap s) \<and> t \<in> set (cache_refs s) \<and> n \<in> set (cache_refs s)"
  by (force simp: store_inv_def cache_refs_def list_all_iff dest!: map_of_SomeD)

lemma writes_only_refl [simp]: "writes_only W s s"
  by (simp add: writes_only_def)

lemma writes_only_trans: "writes_only W s s1 \<Longrightarrow> writes_only W s1 s2 \<Longrightarrow> writes_only W s s2"
  by (simp add: writes_only_def)

lemma same_store_writes_only: "same_store s s' \<Longrightarrow> writes_only W s s'"
  by (simp add: writes_only_def same_store_dict_at same_store_inv) (simp add: same_store_def)

lemma dict_set_facts:
  "length (heap (dict_set r k v s)) = length (heap s)"
  "profile_cache (dict_set r k v s) = profile_cache s"
  "cache_refs (dict_set r k v s) = cache_refs s"
  "r' \<noteq> r \<Longrightarrow> dict_at (dict_set r k v s) r' = dict_at s r'"
  by (simp_all add: dict_set_def cache_refs_def dict_at_def)

lemma store_inv_dict_set:
  assumes "store_inv s"
  shows "store_inv (dict_set r k v s)"
proof -
  have new: "distinct (map fst (AList.update k v (dict_at s r)))"
    using store_inv_dict_distinct [OF assms] by (simp add: distinct_update)
  have "distinct (map fst d)" if "d \<in> set (heap (dict_set r k v s))" for d
  proof -
    from that have "d \<in> insert (AList.update k v (dict_at s r)) (set (heap s))"
      using set_update_subset_insert [of "heap s" r] by (auto simp: dict_set_def)
    then show ?thesis
      using new assms by (auto simp: store_inv_def list_all_iff)
  qed
  then show ?thesis
    using assms by (simp add: store_inv_def dict_set_facts list_all_iff)
qed

lemma writes_only_dict_set: "r \<in> set W \<Longrightarrow> writes_only W s (dict_set r k v s)"
  by (auto simp: writes_only_def dict_set_facts store_inv_dict_set intro!: dict_set_facts(4))

lemma writes_only_find_terms_step:
  "writes_only [pr_terms self, pr_ns self] s (find_terms_step e g prof kind self t s)"
proof -
  let ?W = "[pr_terms self, pr_ns self]"
  have w1: "writes_only ?W s (add_warning m k cx s)" for m k cx
    by (rule same_store_writes_only) simp
  have w2: "writes_only ?W s (dict_set (pr_terms self) k v s)" for k v
    by (rule writes_only_dict_set) simp
  have w3: "writes_only ?W s (dict_set (pr_ns self) k v (add_warnings ws s))" for k v ws
    by (rule writes_only_trans [of _ _ "add_warnings ws s"])
       (rule same_store_writes_only, simp, rule writes_only_dict_set, simp)
  show ?thesis
    unfolding find_terms_step_def Let_def
    by (simp add: w1 w2 w3 split: rdfterm.split prod.split)
qed

lemma writes_only_p_find_terms:
  "writes_only [pr_terms self, pr_ns self] s (p_find_terms e g prof kind self s)"
proof -
  have "writes_only [pr_terms self, pr_ns self] s (fold (find_terms_step e g prof kind self) ts s)" for ts
  proof (induction ts arbitrary: s)
    case Nil
    then show ?case by simp
  next
    case (Cons t ts)
    show ?case
      using writes_only_find_terms_step [of self s e g prof kind t]
        Cons [of "find_terms_step e g prof kind self t s"]
      by (simp add: writes_only_trans)
  qed
  then show ?thesis by (simp add: p_find_terms_def)
qed

lemma read_vocabulary_facts:
  "pr_terms (fst (read_vocabulary e g prof self s)) = pr_terms self"
  "pr_ns (fst (read_vocabulary e g prof self s)) = pr_ns self"
  "same_store s (snd (read_vocabulary e g prof self s))"
  by (simp_all add: read_vocabulary_def Let_def)

lemma same_store_p_get_graph: "same_store s (snd (p_get_graph e name s))"
  by (simp add: p_get_graph_session same_store_def)

lemma cache_refs_update:
  "set (cache_refs (s\<lparr> profile_cache := AList.update prof (t, n) (profile_cache s) \<rparr>))
     \<subseteq> insert t (insert n (set (cache_refs s)))"
proof -
  have "set (concat (map (\<lambda>(u, t, n). [t, n]) (AList.update prof (t, n) c)))
          \<subseteq> insert t (insert n (set (concat (map (\<lambda>(u, t, n). [t, n]) c))))" for c
    by (induction c) (auto simp: case_prod_beta)
  then show ?thesis by (simp add: cache_refs_def)
qed

lemma writes_only_apart:
  assumes "writes_only [pr_terms self, pr_ns self] s s'" and "reader_apart R self s"
  shows "reader_apart R self s' \<and> (\<forall>r \<in> set R. dict_at s' r = dict_at s r)
           \<and> length (heap s') = length (heap s)"
  using assms by (auto simp: writes_only_def reader_apart_def cache_refs_def list_all_iff)

lemma same_store_apart:
  assumes "same_store s s'" and "reader_apart R self s"
  shows "reader_apart R self s' \<and> (\<forall>r \<in> set R. dict_at s' r = dict_at s r)
           \<and> length (heap s') = length (heap s)"
  using same_store_writes_only [OF assms(1)] assms(2) by (rule writes_only_apart)

text \<open>One round of the profile loop keeps the references \<open>R\<close> apart and does not write to
  them, whether it returns or raises.\<close>

lemma profile_step_frame:
  assumes step: "profile_step e prof self s = (res, s')" and apart: "reader_apart R self s"
  shows "(\<forall>self'. res = Inr self' \<longrightarrow> reader_apart R self' s')
           \<and> (\<forall>r \<in> set R. dict_at s' r = dict_at s r) \<and> length (heap s') = length (heap s)"
proof (cases "prof = GRDDL_PROFILE \<or> prof \<in> set (profile_stack s)")
  case True
  then have "profile_step e prof self s = (Inr self, s)"
    by (auto simp: profile_step_GRDDL profile_step_on_stack)
  with step have "res = Inr self" and "s' = s"
    by simp_all
  with apart show ?thesis by simp
next
  case False
  let ?s1 = "s\<lparr> profile_stack := profile_stack s @ [prof] \<rparr>"
  show ?thesis
  proof (cases "map_of (profile_cache s) prof")
    case (Some tn)
    obtain t n where tn: "tn = (t, n)" by (cases tn)
    from step False Some tn have self': "res = Inr (self\<lparr> pr_terms := t, pr_ns := n \<rparr>)" and s': "s' = s"
      by (auto simp: profile_step_def Let_def)
    have "t < length (heap s) \<and> n < length (heap s) \<and> t \<in> set (cache_refs s) \<and> n \<in> set (cache_refs s)"
      using apart Some tn by (intro store_inv_cached) (simp_all add: reader_apart_def)
    with apart show ?thesis
      by (auto simp: self' s' reader_apart_def list_all_iff)
  next
    case None
    obtain res0 s2 where gg: "p_get_graph e prof ?s1 = (res0, s2)" by (cases "p_get_graph e prof ?s1")
    have s2: "s2 = ?s1\<lparr> fetch_log := fetch_log ?s1 @ [prof] \<rparr>"
      using p_get_graph_session [of e prof ?s1] by (simp add: gg)
    have apart2: "reader_apart R self s2" and d2: "dict_at s2 r = dict_at s r"
      and l2: "length (heap s2) = length (heap s)" for r
      using apart by (simp_all add: s2 reader_apart_def store_inv_def cache_refs_def dict_at_def)
    show ?thesis
    proof (cases res0)
      case (Inl err)
      with step False None gg have "res = Inl err" and "s' = s2"
        by (auto simp: profile_step_def Let_def)
      with d2 l2 show ?thesis by simp
    next
      case (Inr go)
      show ?thesis
      proof (cases go)
        case None': None
        with step False None gg Inr have "res = Inr self" and "s' = s2"
          by (auto simp: profile_step_def Let_def)
        with apart2 d2 l2 show ?thesis by simp
      next
        case (Some g)
        obtain self3 s3 where rv: "read_vocabulary e g prof self s2 = (self3, s3)"
          by (cases "read_vocabulary e g prof self s2")
        let ?s4 = "p_find_terms e g prof ''term'' self3 s3"
        let ?s5 = "p_find_terms e g prof ''prefix'' self3 ?s4"
        let ?s6 = "?s5\<lparr> profile_cache := AList.update prof (pr_terms self3, pr_ns self3) (profile_cache ?s5) \<rparr>"
        from step False None gg Inr Some rv
        have self': "res = Inr self3" and s': "s' = ?s6\<lparr> profile_stack := butlast (profile_stack ?s6) \<rparr>"
          by (auto simp: profile_step_def Let_def)
        have refs3: "pr_terms self3 = pr_terms self" "pr_ns self3 = pr_ns self"
          and same3: "same_store s2 s3"
          using read_vocabulary_facts [where e = e and g = g and prof = prof and self = self and s = s2]
          by (simp_all add: rv)
        have apart3: "reader_apart R self3 s3"
          using same_store_apart [OF same3 apart2] by (simp add: reader_apart_def refs3)
        have d3: "\<forall>r \<in> set R. dict_at s3 r = dict_at s r" and l3: "length (heap s3) = length (heap s)"
          using same_store_apart [OF same3 apart2] d2 l2 by simp_all
        have w45: "writes_only [pr_terms self3, pr_ns self3] s3 ?s5"
          using writes_only_p_find_terms [where self = self3 and s = s3 and kind = "''term''"]
            writes_only_p_find_terms [where self = self3 and s = ?s4 and kind = "''prefix''"]
          by (rule writes_only_trans)
        have apart5: "reader_apart R self3 ?s5" and d5: "\<forall>r \<in> set R. dict_at ?s5 r = dict_at s r"
          and l5: "length (heap ?s5) = length (heap s)"
          using writes_only_apart [OF w45 apart3] d3 l3 by simp_all
        have heap6: "heap s' = heap ?s5"
          by (simp add: s')
        have cache6: "set (cache_refs s') \<subseteq> insert (pr_terms self3) (insert (pr_ns self3) (set (cache_refs ?s5)))"
          using cache_refs_update [where s = ?s5 and prof = prof and t = "pr_terms self3" and n = "pr_ns self3"]
          by (simp add: s' cache_refs_def)
        have "reader_apart R self3 s'"
          using apart5 cache6 heap6
          by (auto simp: reader_apart_def store_inv_def list_all_iff)
        moreover have "dict_at s' r = dict_at ?s5 r" for r
          using heap6 by (simp add: dict_at_def)
        then have "\<forall>r \<in> set R. dict_at s' r = dict_at s r"
          using d5 by simp
        moreover have "length (heap s') = length (heap s)"
          using l5 heap6 by simp
        ultimately show ?thesis by (simp add: self')
      qed
    qed
  qed
qed

lemma profile_loop_frame:
  assumes "profile_loop e profs self s = (res, s')" and "reader_apart R self s"
  shows "(\<forall>self'. res = Inr self' \<longrightarrow> reader_apart R self' s')
           \<and> (\<forall>r \<in> set R. dict_at s' r = dict_at s r) \<and> length (heap s') = length (heap s)"
  using assms
proof (induction profs arbitrary: self s)
  case Nil
  then show ?case by auto
next
  case (Cons prof profs)
  obtain res1 s1 where st: "profile_step e prof self s = (res1, s1)" by (cases "profile_step e prof self s")
  have one: "(\<forall>self'. res1 = Inr self' \<longrightarrow> reader_apart R self' s1)
               \<and> (\<forall>r \<in> set R. dict_at s1 r = dict_at s r) \<and> length (heap s1) = length (heap s)"
    using st Cons.prems(2) by (rule profile_step_frame)
  show ?case
  proof (cases res1)
    case (Inl err)
    with Cons.prems(1) st have "res = Inl err" and "s' = s1" by simp_all
    with one show ?thesis by simp
  next
    case (Inr self1)
    have loop: "profile_loop e profs self1 s1 = (res, s')"
      using Cons.prems(1) st Inr by simp
    have "reader_apart R self1 s1"
      using one Inr by simp
    with loop have "(\<forall>self'. res = Inr self' \<longrightarrow> reader_apart R self' s')
               \<and> (\<forall>r \<in> set R. dict_at s' r = dict_at s1 r) \<and> length (heap s') = length (heap s1)"
      by (rule Cons.IH)
    with one show ?thesis by simp
  qed
qed

lemma ProfileRead_init_frame:
  assumes run: "ProfileRead_init e state s = (res, s2)"
    and inv: "store_inv s" and out: "outside_cache R s"
  shows "(\<forall>rv. res = Inr rv \<longrightarrow> reader_apart R rv s2)
           \<and> (\<forall>r \<in> set R. dict_at s2 r = dict_at s r) \<and> length (heap s) \<le> length (heap s2)"
proof -
  let ?sa = "snd (new_dict [] s)"
  let ?sb = "snd (new_dict [] ?sa)"
  let ?self = "\<lparr> pr_terms = length (heap s), pr_ns = Suc (length (heap s)), pr_vocabulary = None \<rparr>"
  have inv_b: "store_inv ?sb"
    using inv by (simp add: store_inv_new_dict)
  have apart_b: "reader_apart R ?self ?sb"
    using inv_b out by (auto simp: reader_apart_def outside_cache_def new_dict_facts list_all_iff)
  have d_b: "\<forall>r \<in> set R. dict_at ?sb r = dict_at s r"
    using out by (auto simp: outside_cache_def new_dict_facts list_all_iff)
  have l_b: "length (heap ?sb) = Suc (Suc (length (heap s)))"
    by (simp add: new_dict_facts)
  show ?thesis
  proof (cases "str_less (rdfa_version state) ''1.1''")
    case True
    with run have "res = Inr ?self" and "s2 = ?sb"
      by (auto simp: ProfileRead_init_def new_dict_def)
    with apart_b d_b l_b show ?thesis by simp
  next
    case False
    obtain profs s3 where g: "getURI_plain e state ''profile'' ?sb = (profs, s3)"
      by (cases "getURI_plain e state ''profile'' ?sb")
    have same: "same_store ?sb s3"
      using same_store_getURI_plain [of ?sb e state "''profile''"] by (simp add: g)
    have three: "reader_apart R ?self s3 \<and> (\<forall>r \<in> set R. dict_at s3 r = dict_at ?sb r)
                   \<and> length (heap s3) = length (heap ?sb)"
      using same apart_b by (rule same_store_apart)
    have loop: "profile_loop e (map term_str (rev (many_of profs))) ?self s3 = (res, s2)"
      using run False g by (simp add: ProfileRead_init_def new_dict_def split: prod.splits)
    from three have ap3: "reader_apart R ?self s3" ..
    have "(\<forall>rv. res = Inr rv \<longrightarrow> reader_apart R rv s2)
            \<and> (\<forall>r \<in> set R. dict_at s2 r = dict_at s3 r) \<and> length (heap s2) = length (heap s3)"
      using loop ap3 by (rule profile_loop_frame)
    with three d_b l_b show ?thesis by simp
  qed
qed

lemma same_store_xmlns_step: "same_store s (snd (xmlns_step e v a (d, s)))"
proof -
  have "same_store s (graph_bind p u (add_warnings ws s))" for p u ws
    by (simp add: same_store_def graph_bind_def add_warnings_def)
  then show ?thesis
    by (simp add: xmlns_step_def Let_def split: prod.split)
qed

lemma same_store_fold_xmlns: "same_store (snd ds) (snd (fold (xmlns_step e v) as ds))"
proof (induction as arbitrary: ds)
  case Nil
  then show ?case by simp
next
  case (Cons a as)
  obtain d s where ds: "ds = (d, s)" by (cases ds)
  show ?case
    using same_store_xmlns_step [of s e v a d] Cons [of "xmlns_step e v a (d, s)"]
    by (simp add: ds same_store_trans)
qed

lemma same_store_prefix_pair_step:
  "same_store s (snd (snd (prefix_pair_step e pr p val (d, dcu, s))))"
proof -
  have a: "same_store s (add_warning m k c (add_warnings ws s))" for m k c ws
    by (simp add: same_store_def add_warning_def add_warnings_def)
  have b: "same_store s (graph_bind q u (add_warnings ws s))" for q u ws
    by (simp add: same_store_def graph_bind_def add_warnings_def)
  show ?thesis
    by (simp add: prefix_pair_step_def Let_def a b split: prod.split)
qed

lemma same_store_prefix_pairs:
  "same_store (snd (snd st)) (snd (snd (prefix_pairs e pr toks st)))"
proof (induction e pr toks st rule: prefix_pairs.induct)
  case (3 e pr prefix0 val rest st)
  obtain d dcu s where st: "st = (d, dcu, s)" by (cases st)
  show ?case
    using 3 same_store_prefix_pair_step [of s e pr prefix0 val d dcu]
    by (simp add: st same_store_trans)
qed simp_all

lemma same_store_local_prefixes:
  "same_store s (snd (snd (local_prefixes e state pns dcu s)))"
proof -
  obtain d s1 where f: "fold (xmlns_step e (rdfa_version state)) (attributes (node state))
                          (dict_overlay [] pns, s) = (d, s1)"
    by (cases "fold (xmlns_step e (rdfa_version state)) (attributes (node state)) (dict_overlay [] pns, s)")
  have one: "same_store s s1"
    using same_store_fold_xmlns [of "(dict_overlay [] pns, s)" e "rdfa_version state" "attributes (node state)"]
    by (simp add: f)
  have "same_store s (snd (snd (prefix_pairs e pr toks (d, dcu, s1))))" for pr toks
    using one same_store_prefix_pairs [of "(d, dcu, s1)" e pr toks]
    by (simp add: same_store_trans)
  with one show ?thesis
    by (simp add: local_prefixes_def f Let_def)
qed

lemma same_store_init_default_term_uri:
  "same_store s (snd (init_default_term_uri e state inherited_state rv s))"
proof -
  obtain u sa where a: "getURI_plain e state ''vocab'' s = (u, sa)"
    by (cases "getURI_plain e state ''vocab'' s")
  obtain w sb where b: "getURI_plain e state ''vocab'' sa = (w, sb)"
    by (cases "getURI_plain e state ''vocab'' sa")
  have "same_store s sa" and "same_store sa sb"
    using same_store_getURI_plain [of s e state "''vocab''"]
      same_store_getURI_plain [of sa e state "''vocab''"]
    by (simp_all add: a b)
  then have "same_store s sb" by (rule same_store_trans)
  then show ?thesis
    by (simp add: init_default_term_uri_def a b Let_def)
qed

text \<open>The local dictionary does not depend on the session or on the default CURIE URI.\<close>

lemma fold_xmlns_dict_indep:
  "fst (fold (xmlns_step e v) as (d, s)) = fst (fold (xmlns_step e v) as (d, s'))"
proof (induction as arbitrary: d s s')
  case Nil
  then show ?case by simp
next
  case (Cons a as)
  obtain d1 s1 where x: "xmlns_step e v a (d, s) = (d1, s1)" by (cases "xmlns_step e v a (d, s)")
  obtain d2 s2 where y: "xmlns_step e v a (d, s') = (d2, s2)" by (cases "xmlns_step e v a (d, s')")
  have "d1 = d2"
    using xmlns_step_dict [of e v a d s] xmlns_step_dict [of e v a d s'] by (simp add: x y)
  then show ?case
    using Cons [of d1 s1 s2] by (simp add: x y)
qed

lemma prefix_pair_step_dict_indep:
  "fst (prefix_pair_step e pr p val (d, dcu, s)) = fst (prefix_pair_step e pr p val (d, dcu', s'))"
  by (auto simp: prefix_pair_step_def Let_def split: prod.split)

lemma prefix_pairs_dict_indep:
  "fst st = fst st' \<Longrightarrow> fst (prefix_pairs e pr toks st) = fst (prefix_pairs e pr toks st')"
proof (induction e pr toks st arbitrary: st' rule: prefix_pairs.induct)
  case (1 e pr st)
  then show ?case by simp
next
  case (2 e pr prefix d dcu s)
  then show ?case by (cases st') simp
next
  case (3 e pr prefix0 val rest st)
  obtain d dcu s where st: "st = (d, dcu, s)" by (cases st)
  obtain d' dcu' s' where st': "st' = (d', dcu', s')" by (cases st')
  have "fst (prefix_pair_step e pr prefix0 val st) = fst (prefix_pair_step e pr prefix0 val st')"
    using "3.prems" prefix_pair_step_dict_indep [of e pr prefix0 val d dcu s dcu' s']
    by (simp add: st st')
  then show ?case
    using "3.IH" by simp
qed

lemma local_prefixes_dict_indep:
  "fst (local_prefixes e state pns dcu s) = fst (local_prefixes e state pns dcu' s')"
proof -
  let ?as = "attributes (node state)" and ?v = "rdfa_version state"
  obtain d s1 where f: "fold (xmlns_step e ?v) ?as (dict_overlay [] pns, s) = (d, s1)"
    by (cases "fold (xmlns_step e ?v) ?as (dict_overlay [] pns, s)")
  obtain d' s1' where f': "fold (xmlns_step e ?v) ?as (dict_overlay [] pns, s') = (d', s1')"
    by (cases "fold (xmlns_step e ?v) ?as (dict_overlay [] pns, s')")
  have dd: "d = d'"
    using fold_xmlns_dict_indep [of e ?v ?as "dict_overlay [] pns" s s'] by (simp add: f f')
  have "fst (prefix_pairs e pr toks (d, dcu, s1)) = fst (prefix_pairs e pr toks (d', dcu', s1'))" for pr toks
    using dd by (intro prefix_pairs_dict_indep) simp
  with dd show ?thesis
    by (simp add: local_prefixes_def f f' Let_def)
qed

text \<open>The last two sections of the constructor have one shape: share the inherited
  dictionary \<open>R\<close> when the local dictionary \<open>X\<close> is empty, else allocate the overlay.\<close>

lemma share_or_overlay:
  assumes res: "(if length X = 0 then (R, s)
                 else new_dict (dict_overlay (dict_overlay [] (dict_at s R)) X) s) = (ref, s')"
    and inv: "store_inv s" and valid: "R < length (heap s)" and apart: "R \<notin> set (cache_refs s)"
    and dist: "distinct (map fst X)"
  shows "store_inv s' \<and> length (heap s) \<le> length (heap s') \<and> cache_refs s' = cache_refs s
       \<and> (\<forall>r < length (heap s). dict_at s' r = dict_at s r)
       \<and> ref < length (heap s') \<and> ref \<notin> set (cache_refs s')
       \<and> (X = [] \<longrightarrow> ref = R)
       \<and> (X \<noteq> [] \<longrightarrow> map_of (dict_at s' ref) = map_of (dict_at s R) ++ map_of X)"
proof (cases "X = []")
  case True
  with res have "ref = R" and "s' = s" by simp_all
  with True inv valid apart show ?thesis by simp
next
  case False
  let ?m = "dict_overlay (dict_overlay [] (dict_at s R)) X"
  from False res have ref: "ref = fst (new_dict ?m s)" and s': "s' = snd (new_dict ?m s)"
    by (simp_all add: prod_eq_iff)
  have dR: "distinct (map fst (dict_at s R))"
    using inv by (rule store_inv_dict_distinct)
  have dm: "distinct (map fst ?m)"
    by (intro distinct_dict_overlay) simp
  have "map_of ?m = map_of (dict_at s R) ++ map_of X"
    using dist dR by (simp add: map_of_dict_overlay)
  moreover have "store_inv s'"
    using inv dm by (simp add: s' store_inv_new_dict)
  moreover have "ref \<notin> set (cache_refs s')"
    using inv by (auto simp: ref s' new_dict_facts store_inv_def list_all_iff)
  moreover have "dict_at (snd (new_dict ?m s)) (length (heap s)) = ?m"
    by (simp add: new_dict_def dict_at_def)
  ultimately show ?thesis
    using False by (simp add: ref s' new_dict_facts)
qed

lemma ProfileRead_init_no_profile:
  assumes "ProfileRead_init e state s = (Inr rv, s2)"
    and "\<not> hasAttribute (node state) ''profile'' \<or> str_less (rdfa_version state) ''1.1''"
  shows "dict_at s2 (pr_terms rv) = [] \<and> dict_at s2 (pr_ns rv) = []"
proof -
  have "rv = \<lparr> pr_terms = length (heap s), pr_ns = Suc (length (heap s)), pr_vocabulary = None \<rparr>
        \<and> s2 = s\<lparr> heap := heap s @ [[], []] \<rparr>"
    using assms
    by (auto simp: ProfileRead_init_def new_dict_def getURI_plain_def list_attrs_def Let_def
             split: if_splits)
  then show ?thesis
    by (simp add: dict_at_def nth_append)
qed

lemma TermOrCurie_init_stages:
  assumes "TermOrCurie_init e state (Some inh) s = (Inr tc, s')"
  shows "\<exists>rv s2 dtu s3 s4 d dcu s5.
           ProfileRead_init e state s = (Inr rv, s2)
         \<and> init_default_term_uri e state (Some inh) rv s2 = (dtu, s3)
         \<and> init_terms (Some inh) rv s3 = (terms tc, s4)
         \<and> local_prefixes e state (dict_at s4 (pr_ns rv)) (default_curie_uri (curie inh)) s4 = (d, dcu, s5)
         \<and> init_ns (Some inh) d s5 = (ns tc, s')"
  using assms
  by (auto simp: TermOrCurie_init_def init_default_curie_uri_def split: prod.splits sum.splits)

lemma TermOrCurie_init_success:
  assumes run: "TermOrCurie_init e state (Some inh) s = (Inr tc, s')"
    and inv: "store_inv s"
    and valid: "terms (curie inh) < length (heap s)" "ns (curie inh) < length (heap s)"
    and apart: "terms (curie inh) \<notin> set (cache_refs s)" "ns (curie inh) \<notin> set (cache_refs s)"
  shows "\<exists>rv s2 d.
      ProfileRead_init e state s = (Inr rv, s2)
    \<and> d = fst (local_prefixes e state (dict_at s2 (pr_ns rv)) (default_curie_uri (curie inh)) s2)
    \<and> dict_at s' (terms (curie inh)) = dict_at s (terms (curie inh))
    \<and> dict_at s' (ns (curie inh)) = dict_at s (ns (curie inh))
    \<and> (dict_at s2 (pr_terms rv) = [] \<longrightarrow> terms tc = terms (curie inh))
    \<and> (\<not> hasAttribute (node state) ''profile'' \<or> str_less (rdfa_version state) ''1.1''
          \<longrightarrow> dict_at s2 (pr_terms rv) = [])
    \<and> (dict_at s2 (pr_terms rv) \<noteq> [] \<longrightarrow>
          map_of (dict_at s' (terms tc))
            = map_of (dict_at s (terms (curie inh))) ++ map_of (dict_at s2 (pr_terms rv)))
    \<and> (d = [] \<longrightarrow> ns tc = ns (curie inh))
    \<and> (d \<noteq> [] \<longrightarrow> map_of (dict_at s' (ns tc)) = map_of (dict_at s (ns (curie inh))) ++ map_of d)
    \<and> store_inv s' \<and> terms tc < length (heap s') \<and> ns tc < length (heap s')
    \<and> terms tc \<notin> set (cache_refs s') \<and> ns tc \<notin> set (cache_refs s')"
proof -
  let ?rt = "terms (curie inh)" and ?rn = "ns (curie inh)"
  obtain rv s2 dtu s3 s4 d dcu s5 where
    pr: "ProfileRead_init e state s = (Inr rv, s2)" and
    dt: "init_default_term_uri e state (Some inh) rv s2 = (dtu, s3)" and
    it: "init_terms (Some inh) rv s3 = (terms tc, s4)" and
    lp: "local_prefixes e state (dict_at s4 (pr_ns rv)) (default_curie_uri (curie inh)) s4 = (d, dcu, s5)" and
    ins: "init_ns (Some inh) d s5 = (ns tc, s')"
    using TermOrCurie_init_stages [OF run] by blast
  \<comment> \<open>the profile reader\<close>
  have out: "outside_cache [?rt, ?rn] s"
    using valid apart by (simp add: outside_cache_def)
  have fr: "reader_apart [?rt, ?rn] rv s2" and ft: "dict_at s2 ?rt = dict_at s ?rt"
    and fn: "dict_at s2 ?rn = dict_at s ?rn" and len2: "length (heap s) \<le> length (heap s2)"
    using ProfileRead_init_frame [OF pr inv out] by simp_all
  have inv2: "store_inv s2" and nsv: "pr_ns rv < length (heap s2)"
    and at2: "?rt \<notin> set (cache_refs s2)" and an2: "?rn \<notin> set (cache_refs s2)"
    using fr by (simp_all add: reader_apart_def)
  have vt2: "?rt < length (heap s2)" and vn2: "?rn < length (heap s2)"
    using len2 valid by simp_all
  \<comment> \<open>the default term URI: warnings only\<close>
  have same3: "same_store s2 s3"
    using same_store_init_default_term_uri [of s2 e state "Some inh" rv] by (simp add: dt)
  have h3: "heap s3 = heap s2" and c3: "cache_refs s3 = cache_refs s2" and inv3: "store_inv s3"
    using same3 inv2 by (simp_all add: same_store_heap same_store_cache_refs same_store_inv)
  have d3: "dict_at s3 r = dict_at s2 r" for r
    using same3 by (rule same_store_dict_at)
  \<comment> \<open>the terms\<close>
  have t: "store_inv s4 \<and> length (heap s3) \<le> length (heap s4) \<and> cache_refs s4 = cache_refs s3
       \<and> (\<forall>r < length (heap s3). dict_at s4 r = dict_at s3 r)
       \<and> terms tc < length (heap s4) \<and> terms tc \<notin> set (cache_refs s4)
       \<and> (dict_at s3 (pr_terms rv) = [] \<longrightarrow> terms tc = ?rt)
       \<and> (dict_at s3 (pr_terms rv) \<noteq> [] \<longrightarrow>
            map_of (dict_at s4 (terms tc)) = map_of (dict_at s3 ?rt) ++ map_of (dict_at s3 (pr_terms rv)))"
  proof (rule share_or_overlay)
    show "(if length (dict_at s3 (pr_terms rv)) = 0 then (?rt, s3)
           else new_dict (dict_overlay (dict_overlay [] (dict_at s3 ?rt)) (dict_at s3 (pr_terms rv))) s3)
          = (terms tc, s4)"
      using it by (simp add: init_terms_def)
    show "store_inv s3" by (rule inv3)
    show "?rt < length (heap s3)" using vt2 by (simp add: h3)
    show "?rt \<notin> set (cache_refs s3)" using at2 by (simp add: c3)
    show "distinct (map fst (dict_at s3 (pr_terms rv)))" using inv3 by (rule store_inv_dict_distinct)
  qed
  from t have t_inv: "store_inv s4" and t_len: "length (heap s3) \<le> length (heap s4)"
    and t_cache: "cache_refs s4 = cache_refs s3"
    and t_old: "\<And>r. r < length (heap s3) \<Longrightarrow> dict_at s4 r = dict_at s3 r"
    and t_valid: "terms tc < length (heap s4)" and t_apart: "terms tc \<notin> set (cache_refs s4)"
    and t_share: "dict_at s3 (pr_terms rv) = [] \<Longrightarrow> terms tc = ?rt"
    and t_new: "dict_at s3 (pr_terms rv) \<noteq> [] \<Longrightarrow>
            map_of (dict_at s4 (terms tc)) = map_of (dict_at s3 ?rt) ++ map_of (dict_at s3 (pr_terms rv))"
    by blast+
  have d4: "dict_at s4 r = dict_at s2 r" if "r < length (heap s2)" for r
    using t_old [of r] that by (simp add: h3 d3)
  \<comment> \<open>the local dictionary: warnings and bindings of the graph only\<close>
  have same5: "same_store s4 s5"
    using same_store_local_prefixes [of s4 e state "dict_at s4 (pr_ns rv)" "default_curie_uri (curie inh)"]
    by (simp add: lp)
  have h5: "heap s5 = heap s4" and c5: "cache_refs s5 = cache_refs s4" and inv5: "store_inv s5"
    using same5 t by (simp_all add: same_store_heap same_store_cache_refs same_store_inv)
  have d5: "dict_at s5 r = dict_at s4 r" for r
    using same5 by (rule same_store_dict_at)
  have lp2: "local_prefixes e state (dict_at s2 (pr_ns rv)) (default_curie_uri (curie inh)) s4 = (d, dcu, s5)"
    using lp d4 [OF nsv] by simp
  have d_def: "d = fst (local_prefixes e state (dict_at s2 (pr_ns rv)) (default_curie_uri (curie inh)) s2)"
    using local_prefixes_dict_indep [of e state "dict_at s2 (pr_ns rv)" "default_curie_uri (curie inh)" s4
            "default_curie_uri (curie inh)" s2]
    by (simp add: lp2)
  have dist_d: "distinct (map fst d)"
    using local_prefixes_distinct [of e state "dict_at s4 (pr_ns rv)" "default_curie_uri (curie inh)" s4]
    by (simp add: lp)
  \<comment> \<open>the namespaces\<close>
  have n: "store_inv s' \<and> length (heap s5) \<le> length (heap s') \<and> cache_refs s' = cache_refs s5
       \<and> (\<forall>r < length (heap s5). dict_at s' r = dict_at s5 r)
       \<and> ns tc < length (heap s') \<and> ns tc \<notin> set (cache_refs s')
       \<and> (d = [] \<longrightarrow> ns tc = ?rn)
       \<and> (d \<noteq> [] \<longrightarrow> map_of (dict_at s' (ns tc)) = map_of (dict_at s5 ?rn) ++ map_of d)"
  proof (rule share_or_overlay)
    show "(if length d = 0 then (?rn, s5)
           else new_dict (dict_overlay (dict_overlay [] (dict_at s5 ?rn)) d) s5) = (ns tc, s')"
      using ins by (simp add: init_ns_def)
    show "store_inv s5" by (rule inv5)
    show "?rn < length (heap s5)" using vn2 t by (simp add: h5 h3)
    show "?rn \<notin> set (cache_refs s5)" using an2 t by (simp add: c5 c3)
    show "distinct (map fst d)" by (rule dist_d)
  qed
  from n have n_inv: "store_inv s'" and n_len: "length (heap s5) \<le> length (heap s')"
    and n_cache: "cache_refs s' = cache_refs s5"
    and n_old: "\<And>r. r < length (heap s5) \<Longrightarrow> dict_at s' r = dict_at s5 r"
    and n_valid: "ns tc < length (heap s')" and n_apart: "ns tc \<notin> set (cache_refs s')"
    and n_share: "d = [] \<Longrightarrow> ns tc = ?rn"
    and n_new: "d \<noteq> [] \<Longrightarrow> map_of (dict_at s' (ns tc)) = map_of (dict_at s5 ?rn) ++ map_of d"
    by blast+
  have d': "dict_at s' r = dict_at s4 r" if "r < length (heap s4)" for r
    using n_old [of r] that by (simp add: h5 d5)
  have len24: "length (heap s2) \<le> length (heap s4)"
    using t_len by (simp add: h3)
  have keep_t: "dict_at s' ?rt = dict_at s ?rt"
  proof -
    have "dict_at s' ?rt = dict_at s4 ?rt" using vt2 len24 by (intro d') simp
    also have "\<dots> = dict_at s2 ?rt" using vt2 by (rule d4)
    also have "\<dots> = dict_at s ?rt" using ft by simp
    finally show ?thesis .
  qed
  have keep_n: "dict_at s' ?rn = dict_at s ?rn"
  proof -
    have "dict_at s' ?rn = dict_at s4 ?rn" using vn2 len24 by (intro d') simp
    also have "\<dots> = dict_at s2 ?rn" using vn2 by (rule d4)
    also have "\<dots> = dict_at s ?rn" using fn by simp
    finally show ?thesis .
  qed
  have terms_valid: "terms tc < length (heap s')"
    using t_valid n_len by (simp add: h5)
  have terms_apart: "terms tc \<notin> set (cache_refs s')"
    using t_apart by (simp add: n_cache c5)
  have terms_new: "map_of (dict_at s' (terms tc)) = map_of (dict_at s ?rt) ++ map_of (dict_at s2 (pr_terms rv))"
    if ne: "dict_at s2 (pr_terms rv) \<noteq> []"
  proof -
    have "dict_at s' (terms tc) = dict_at s4 (terms tc)"
      using t_valid by (rule d')
    moreover have "map_of (dict_at s4 (terms tc)) = map_of (dict_at s3 ?rt) ++ map_of (dict_at s3 (pr_terms rv))"
      using ne by (intro t_new) (simp add: d3)
    moreover have "dict_at s2 ?rt = dict_at s ?rt"
      using ft by simp
    ultimately show ?thesis
      by (simp add: d3)
  qed
  have ns_new: "map_of (dict_at s' (ns tc)) = map_of (dict_at s ?rn) ++ map_of d" if ne: "d \<noteq> []"
  proof -
    have "dict_at s5 ?rn = dict_at s ?rn"
      using d4 [OF vn2] fn by (simp add: d5)
    then show ?thesis
      using n_new [OF ne] by simp
  qed
  have no_profile: "dict_at s2 (pr_terms rv) = []"
    if "\<not> hasAttribute (node state) ''profile'' \<or> str_less (rdfa_version state) ''1.1''"
    using ProfileRead_init_no_profile [OF pr that] by simp
  have shared_t: "terms tc = ?rt" if "dict_at s2 (pr_terms rv) = []"
    using that by (intro t_share) (simp add: d3)
  note shared_n = n_share and inv' = n_inv and ns_valid = n_valid and ns_apart = n_apart
  show ?thesis
    using pr d_def keep_t keep_n shared_t no_profile terms_new shared_n ns_new
      inv' terms_valid ns_valid terms_apart ns_apart
    by (intro exI [of _ rv] exI [of _ s2] exI [of _ d]) simp
qed

text \<open>
  The invariant goes down the tree.  Let the constructor succeed, at the root or below an
  inherited state whose two dictionaries are outside the cache.  Then the store satisfies
  its invariant afterwards, the two dictionaries of the new object are outside the cache,
  and every dictionary \<open>R\<close> that was outside the cache before (those of any other
  vocabulary object) still is, with the contents it had.
\<close>

lemma new_dict_frame:
  assumes "store_inv s" and "distinct (map fst m)" and "new_dict m s = (ref, s')"
  shows "store_inv s' \<and> length (heap s) \<le> length (heap s') \<and> cache_refs s' = cache_refs s
       \<and> (\<forall>r < length (heap s). dict_at s' r = dict_at s r)
       \<and> ref < length (heap s') \<and> ref \<notin> set (cache_refs s')"
proof -
  from assms(3) have ref: "ref = fst (new_dict m s)" and s': "s' = snd (new_dict m s)"
    by simp_all
  have "ref \<notin> set (cache_refs s')"
    using assms(1) by (auto simp: ref s' new_dict_facts store_inv_def list_all_iff)
  moreover have "store_inv s'"
    using assms(1,2) by (simp add: s' store_inv_new_dict)
  ultimately show ?thesis
    by (simp add: ref s' new_dict_facts)
qed

lemma TermOrCurie_init_stages_any:
  assumes "TermOrCurie_init e state inherited_state s = (Inr tc, s')"
  shows "\<exists>dcu0 s1 rv s2 dtu s3 s4 d dcu s5.
           init_default_curie_uri inherited_state s = (dcu0, s1)
         \<and> ProfileRead_init e state s1 = (Inr rv, s2)
         \<and> init_default_term_uri e state inherited_state rv s2 = (dtu, s3)
         \<and> init_terms inherited_state rv s3 = (terms tc, s4)
         \<and> local_prefixes e state (dict_at s4 (pr_ns rv)) dcu0 s4 = (d, dcu, s5)
         \<and> init_ns inherited_state d s5 = (ns tc, s')"
  using assms
  by (auto simp: TermOrCurie_init_def split: prod.splits sum.splits)

lemma same_store_init_default_curie_uri:
  "same_store s (snd (init_default_curie_uri inherited_state s))"
  by (simp add: init_default_curie_uri_def split: option.split)

lemma TermOrCurie_init_frame:
  assumes run: "TermOrCurie_init e state inherited_state s = (Inr tc, s')"
    and inv: "store_inv s"
    and inh: "case inherited_state of None \<Rightarrow> True
              | Some inh \<Rightarrow> outside_cache [terms (curie inh), ns (curie inh)] s"
    and out: "outside_cache R s"
  shows "store_inv s' \<and> outside_cache (terms tc # ns tc # R) s'
           \<and> (\<forall>r \<in> set R. dict_at s' r = dict_at s r)"
proof -
  obtain dcu0 s1 rv s2 dtu s3 s4 d dcu s5 where
    dc: "init_default_curie_uri inherited_state s = (dcu0, s1)" and
    pr: "ProfileRead_init e state s1 = (Inr rv, s2)" and
    dt: "init_default_term_uri e state inherited_state rv s2 = (dtu, s3)" and
    it: "init_terms inherited_state rv s3 = (terms tc, s4)" and
    lp: "local_prefixes e state (dict_at s4 (pr_ns rv)) dcu0 s4 = (d, dcu, s5)" and
    ins: "init_ns inherited_state d s5 = (ns tc, s')"
    using TermOrCurie_init_stages_any [OF run] by blast
  define I where "I = (case inherited_state of None \<Rightarrow> []
                       | Some inh \<Rightarrow> [terms (curie inh), ns (curie inh)])"
  have I_some: "terms (curie inh) \<in> set I \<and> ns (curie inh) \<in> set I"
    if "inherited_state = Some inh" for inh
    using that by (simp add: I_def)
  have same1: "same_store s s1"
    using same_store_init_default_curie_uri [of s inherited_state] by (simp add: dc)
  have "outside_cache (I @ R) s"
    using inh out by (cases inherited_state) (simp_all add: I_def outside_cache_def)
  then have out1: "outside_cache (I @ R) s1"
    using same1 by (simp add: outside_cache_def same_store_heap same_store_cache_refs)
  have inv1: "store_inv s1"
    using inv same1 by (simp add: same_store_inv)
  have d1: "dict_at s1 r = dict_at s r" for r
    using same1 by (rule same_store_dict_at)
  have fr: "reader_apart (I @ R) rv s2" and keep2: "\<forall>r \<in> set (I @ R). dict_at s2 r = dict_at s1 r"
    and len2: "length (heap s1) \<le> length (heap s2)"
    using ProfileRead_init_frame [OF pr inv1 out1] by simp_all
  have inv2: "store_inv s2"
    using fr by (simp add: reader_apart_def)
  have out2: "r < length (heap s2) \<and> r \<notin> set (cache_refs s2)" if "r \<in> set (I @ R)" for r
  proof -
    from fr that have "r \<notin> set (cache_refs s2)"
      by (simp add: reader_apart_def list_all_iff del: set_append)
    moreover from out1 that have "r < length (heap s1)"
      by (simp add: outside_cache_def list_all_iff del: set_append)
    ultimately show ?thesis
      using len2 by simp
  qed
  have same3: "same_store s2 s3"
    using same_store_init_default_term_uri [of s2 e state inherited_state rv] by (simp add: dt)
  have h3: "heap s3 = heap s2" and c3: "cache_refs s3 = cache_refs s2" and inv3: "store_inv s3"
    using same3 inv2 by (simp_all add: same_store_heap same_store_cache_refs same_store_inv)
  have d3: "dict_at s3 r = dict_at s2 r" for r
    using same3 by (rule same_store_dict_at)
  have t: "store_inv s4 \<and> length (heap s3) \<le> length (heap s4) \<and> cache_refs s4 = cache_refs s3
       \<and> (\<forall>r < length (heap s3). dict_at s4 r = dict_at s3 r)
       \<and> terms tc < length (heap s4) \<and> terms tc \<notin> set (cache_refs s4)"
  proof (cases inherited_state)
    case None
    have "new_dict (dict_overlay [] (dict_at s3 (pr_terms rv))) s3 = (terms tc, s4)"
      using it None by (simp add: init_terms_def)
    with inv3 distinct_overlay_empty show ?thesis by (rule new_dict_frame)
  next
    case (Some inh)
    have "store_inv s4 \<and> length (heap s3) \<le> length (heap s4) \<and> cache_refs s4 = cache_refs s3
       \<and> (\<forall>r < length (heap s3). dict_at s4 r = dict_at s3 r)
       \<and> terms tc < length (heap s4) \<and> terms tc \<notin> set (cache_refs s4)
       \<and> (dict_at s3 (pr_terms rv) = [] \<longrightarrow> terms tc = terms (curie inh))
       \<and> (dict_at s3 (pr_terms rv) \<noteq> [] \<longrightarrow>
            map_of (dict_at s4 (terms tc))
              = map_of (dict_at s3 (terms (curie inh))) ++ map_of (dict_at s3 (pr_terms rv)))"
    proof (rule share_or_overlay)
      show "(if length (dict_at s3 (pr_terms rv)) = 0 then (terms (curie inh), s3)
             else new_dict (dict_overlay (dict_overlay [] (dict_at s3 (terms (curie inh))))
                              (dict_at s3 (pr_terms rv))) s3) = (terms tc, s4)"
        using it Some by (simp add: init_terms_def)
      show "store_inv s3" by (rule inv3)
      show "terms (curie inh) < length (heap s3)"
        using out2 [of "terms (curie inh)"] I_some [OF Some] by (simp add: h3)
      show "terms (curie inh) \<notin> set (cache_refs s3)"
        using out2 [of "terms (curie inh)"] I_some [OF Some] by (simp add: c3)
      show "distinct (map fst (dict_at s3 (pr_terms rv)))" using inv3 by (rule store_inv_dict_distinct)
    qed
    then show ?thesis by blast
  qed
  have same5: "same_store s4 s5"
    using same_store_local_prefixes [of s4 e state "dict_at s4 (pr_ns rv)" dcu0] by (simp add: lp)
  have h5: "heap s5 = heap s4" and c5: "cache_refs s5 = cache_refs s4" and inv5: "store_inv s5"
    using same5 t by (simp_all add: same_store_heap same_store_cache_refs same_store_inv)
  have d5: "dict_at s5 r = dict_at s4 r" for r
    using same5 by (rule same_store_dict_at)
  have dist_d: "distinct (map fst d)"
    using local_prefixes_distinct [of e state "dict_at s4 (pr_ns rv)" dcu0 s4] by (simp add: lp)
  have n: "store_inv s' \<and> length (heap s5) \<le> length (heap s') \<and> cache_refs s' = cache_refs s5
       \<and> (\<forall>r < length (heap s5). dict_at s' r = dict_at s5 r)
       \<and> ns tc < length (heap s') \<and> ns tc \<notin> set (cache_refs s')"
  proof (cases inherited_state)
    case None
    have "new_dict d s5 = (ns tc, s')"
      using ins None by (simp add: init_ns_def)
    with inv5 dist_d show ?thesis by (rule new_dict_frame)
  next
    case (Some inh)
    have "store_inv s' \<and> length (heap s5) \<le> length (heap s') \<and> cache_refs s' = cache_refs s5
       \<and> (\<forall>r < length (heap s5). dict_at s' r = dict_at s5 r)
       \<and> ns tc < length (heap s') \<and> ns tc \<notin> set (cache_refs s')
       \<and> (d = [] \<longrightarrow> ns tc = ns (curie inh))
       \<and> (d \<noteq> [] \<longrightarrow> map_of (dict_at s' (ns tc)) = map_of (dict_at s5 (ns (curie inh))) ++ map_of d)"
    proof (rule share_or_overlay)
      show "(if length d = 0 then (ns (curie inh), s5)
             else new_dict (dict_overlay (dict_overlay [] (dict_at s5 (ns (curie inh)))) d) s5)
            = (ns tc, s')"
        using ins Some by (simp add: init_ns_def)
      show "store_inv s5" by (rule inv5)
      show "ns (curie inh) < length (heap s5)"
        using out2 [of "ns (curie inh)"] I_some [OF Some] t by (simp add: h5 h3)
      show "ns (curie inh) \<notin> set (cache_refs s5)"
        using out2 [of "ns (curie inh)"] I_some [OF Some] t by (simp add: c5 c3)
      show "distinct (map fst d)" by (rule dist_d)
    qed
    then show ?thesis by blast
  qed
  from t have t_len: "length (heap s3) \<le> length (heap s4)" and t_cache: "cache_refs s4 = cache_refs s3"
    and t_old: "\<And>r. r < length (heap s3) \<Longrightarrow> dict_at s4 r = dict_at s3 r"
    and t_valid: "terms tc < length (heap s4)" and t_apart: "terms tc \<notin> set (cache_refs s4)"
    by blast+
  from n have n_inv: "store_inv s'" and n_len: "length (heap s5) \<le> length (heap s')"
    and n_cache: "cache_refs s' = cache_refs s5"
    and n_old: "\<And>r. r < length (heap s5) \<Longrightarrow> dict_at s' r = dict_at s5 r"
    and n_valid: "ns tc < length (heap s')" and n_apart: "ns tc \<notin> set (cache_refs s')"
    by blast+
  have cache': "cache_refs s' = cache_refs s2"
    by (simp add: n_cache c5 t_cache c3)
  have len': "length (heap s2) \<le> length (heap s')" and len4: "length (heap s2) \<le> length (heap s4)"
    using t_len n_len by (simp_all add: h5 h3)
  have old: "dict_at s' r = dict_at s r \<and> r < length (heap s') \<and> r \<notin> set (cache_refs s')"
    if r: "r \<in> set R" for r
  proof -
    from r out2 [of r] have v2: "r < length (heap s2)" and a2: "r \<notin> set (cache_refs s2)"
      by simp_all
    have "dict_at s' r = dict_at s5 r"
      using v2 len4 by (intro n_old) (simp add: h5)
    also have "\<dots> = dict_at s3 r"
      using v2 t_old [of r] by (simp add: d5 h3)
    also have "\<dots> = dict_at s r"
      using keep2 r by (simp add: d3 d1)
    finally show ?thesis
      using v2 a2 len' by (simp add: cache')
  qed
  have "terms tc < length (heap s')" and "terms tc \<notin> set (cache_refs s')"
    using t_valid t_apart n_len by (simp_all add: h5 n_cache c5)
  with old n_inv n_valid n_apart show ?thesis
    by (simp add: outside_cache_def list_all_iff)
qed

lemma TermOrCurie_init_failure:
  assumes "TermOrCurie_init e state (Some inh) s = (Inl err, s')"
  shows "ProfileRead_init e state s = (Inl err, s')"
  using assms
  by (auto simp: TermOrCurie_init_def init_default_curie_uri_def split: prod.splits sum.splits)

text \<open>
  C6.  Take a node with an inherited state, in a session that satisfies the invariant of
  the store and in which the inherited term and namespace dictionaries exist and are not
  held by the profile cache (the constructor establishes the same for the dictionaries of
  the object it returns, so this holds all the way down the tree).  Whether the
  constructor of the vocabulary object succeeds or raises, the two inherited dictionaries
  have afterwards the contents they had before.  When it succeeds, with \<open>rv\<close> the profile
  reader of the node and \<open>d\<close> the local namespace dictionary: if the reader has no terms
  (as for a node without \<^verbatim>\<open>@profile\<close>, or below version 1.1), the terms of the object are
  the inherited dictionary itself, the same reference; otherwise they are a dictionary
  that maps as the inherited one overlaid with the reader's terms.  If \<open>d\<close> is empty the
  namespaces of the object are the inherited dictionary itself; otherwise they map as the
  inherited one overlaid with \<open>d\<close>.
\<close>

theorem inherited_maps_shared_not_mutated:
  assumes inv: "store_inv s"
    and valid: "terms (curie inh) < length (heap s)" "ns (curie inh) < length (heap s)"
    and apart: "terms (curie inh) \<notin> set (cache_refs s)" "ns (curie inh) \<notin> set (cache_refs s)"
  shows "dict_at (snd (TermOrCurie_init e state (Some inh) s)) (terms (curie inh))
           = dict_at s (terms (curie inh))
    \<and> dict_at (snd (TermOrCurie_init e state (Some inh) s)) (ns (curie inh))
           = dict_at s (ns (curie inh))
    \<and> (\<forall>tc s'. TermOrCurie_init e state (Some inh) s = (Inr tc, s') \<longrightarrow>
         (\<exists>rv s2 d.
            ProfileRead_init e state s = (Inr rv, s2)
          \<and> d = fst (local_prefixes e state (dict_at s2 (pr_ns rv)) (default_curie_uri (curie inh)) s2)
          \<and> (dict_at s2 (pr_terms rv) = [] \<longrightarrow> terms tc = terms (curie inh))
          \<and> (\<not> hasAttribute (node state) ''profile'' \<or> str_less (rdfa_version state) ''1.1''
                \<longrightarrow> dict_at s2 (pr_terms rv) = [])
          \<and> (dict_at s2 (pr_terms rv) \<noteq> [] \<longrightarrow>
                map_of (dict_at s' (terms tc))
                  = map_of (dict_at s (terms (curie inh))) ++ map_of (dict_at s2 (pr_terms rv)))
          \<and> (d = [] \<longrightarrow> ns tc = ns (curie inh))
          \<and> (d \<noteq> [] \<longrightarrow> map_of (dict_at s' (ns tc)) = map_of (dict_at s (ns (curie inh))) ++ map_of d)
          \<and> store_inv s' \<and> terms tc < length (heap s') \<and> ns tc < length (heap s')
          \<and> terms tc \<notin> set (cache_refs s') \<and> ns tc \<notin> set (cache_refs s')))"
proof -
  obtain res s' where run: "TermOrCurie_init e state (Some inh) s = (res, s')"
    by (cases "TermOrCurie_init e state (Some inh) s")
  have keep: "dict_at s' (terms (curie inh)) = dict_at s (terms (curie inh))
            \<and> dict_at s' (ns (curie inh)) = dict_at s (ns (curie inh))"
  proof (cases res)
    case (Inl err)
    with run have pr: "ProfileRead_init e state s = (Inl err, s')"
      by (intro TermOrCurie_init_failure) simp
    have "outside_cache [terms (curie inh), ns (curie inh)] s"
      using valid apart by (simp add: outside_cache_def)
    from ProfileRead_init_frame [OF pr inv this] show ?thesis
      by simp
  next
    case (Inr tc)
    with run have "TermOrCurie_init e state (Some inh) s = (Inr tc, s')" by simp
    from TermOrCurie_init_success [OF this inv valid apart] show ?thesis by blast
  qed
  have "\<exists>rv s2 d.
            ProfileRead_init e state s = (Inr rv, s2)
          \<and> d = fst (local_prefixes e state (dict_at s2 (pr_ns rv)) (default_curie_uri (curie inh)) s2)
          \<and> (dict_at s2 (pr_terms rv) = [] \<longrightarrow> terms tc = terms (curie inh))
          \<and> (\<not> hasAttribute (node state) ''profile'' \<or> str_less (rdfa_version state) ''1.1''
                \<longrightarrow> dict_at s2 (pr_terms rv) = [])
          \<and> (dict_at s2 (pr_terms rv) \<noteq> [] \<longrightarrow>
                map_of (dict_at s'' (terms tc))
                  = map_of (dict_at s (terms (curie inh))) ++ map_of (dict_at s2 (pr_terms rv)))
          \<and> (d = [] \<longrightarrow> ns tc = ns (curie inh))
          \<and> (d \<noteq> [] \<longrightarrow> map_of (dict_at s'' (ns tc)) = map_of (dict_at s (ns (curie inh))) ++ map_of d)
          \<and> store_inv s'' \<and> terms tc < length (heap s'') \<and> ns tc < length (heap s'')
          \<and> terms tc \<notin> set (cache_refs s'') \<and> ns tc \<notin> set (cache_refs s'')"
    if "TermOrCurie_init e state (Some inh) s = (Inr tc, s'')" for tc s''
    using TermOrCurie_init_success [OF that inv valid apart] by blast
  with keep show ?thesis
    by (simp add: run)
qed

theorem inherited_maps_shared_not_mutated_witness:
  "store_inv sample_session \<and>
   terms (curie (sample_state ''1.1'' [])) < length (heap sample_session) \<and>
   ns (curie (sample_state ''1.1'' [])) < length (heap sample_session) \<and>
   terms (curie (sample_state ''1.1'' [])) \<notin> set (cache_refs sample_session) \<and>
   ns (curie (sample_state ''1.1'' [])) \<notin> set (cache_refs sample_session) \<and>
   TermOrCurie_init sample_env (sample_core ''1.1'' []) (Some (sample_state ''1.1'' [])) sample_session
     = (Inr child_curie, child_session) \<and>
   \<not> hasAttribute (node (sample_core ''1.1'' [])) ''profile'' \<and>
   terms child_curie = terms (curie (sample_state ''1.1'' [])) \<and>
   dict_at child_session (terms (curie (sample_state ''1.1'' [])))
     = dict_at sample_session (terms (curie (sample_state ''1.1'' []))) \<and>
   store_inv child_session"
proof -
  have run: "TermOrCurie_init sample_env (sample_core ''1.1'' []) (Some (sample_state ''1.1'' [])) sample_session
     = (Inr child_curie, child_session)"
    by code_simp
  have inv: "store_inv sample_session" by code_simp
  have v1: "terms (curie (sample_state ''1.1'' [])) < length (heap sample_session)" by code_simp
  have v2: "ns (curie (sample_state ''1.1'' [])) < length (heap sample_session)" by code_simp
  have a1: "terms (curie (sample_state ''1.1'' [])) \<notin> set (cache_refs sample_session)" by code_simp
  have a2: "ns (curie (sample_state ''1.1'' [])) \<notin> set (cache_refs sample_session)" by code_simp
  have np: "\<not> hasAttribute (node (sample_core ''1.1'' [])) ''profile''" by code_simp
  from inherited_maps_shared_not_mutated [OF inv v1 v2 a1 a2, of sample_env "sample_core ''1.1'' []"] np run
  have "terms child_curie = terms (curie (sample_state ''1.1'' []))
      \<and> dict_at child_session (terms (curie (sample_state ''1.1'' [])))
          = dict_at sample_session (terms (curie (sample_state ''1.1'' [])))
      \<and> store_inv child_session"
    by (simp only: snd_conv) blast
  with run inv v1 v2 a1 a2 np show ?thesis by simp
qed

end
